theory Spec2Isabelle
  imports Main "HOL-Library.Word"
begin

section \<open>Values shared by the transcoder and the validator\<close>

text \<open>
  A Node \<open>Buffer\<close> is a sequence of bytes and \<open>buffer.length\<close> is its number of bytes.
  A JavaScript string is a sequence of UTF-16 code units and \<open>s.length\<close> counts code
  units, so strings are lists of 16-bit words. \<open>js\<close> embeds an ASCII literal.
\<close>

type_synonym buffer = "8 word list"
type_synonym jsstring = "16 word list"
type_synonym path = jsstring

definition js :: "string \<Rightarrow> jsstring" where
  "js s = map of_char s"

text \<open>
  \<open>String(n)\<close> and \<open>`${n}`\<close> of a non-negative integer: its decimal digits.
\<close>

definition digit_chars :: string where
  "digit_chars = ''0123456789''"

fun show_nat :: "nat \<Rightarrow> string" where
  "show_nat n =
     (if n < 10 then [digit_chars ! n]
      else show_nat (n div 10) @ [digit_chars ! (n mod 10)])"

declare show_nat.simps [simp del]

text \<open>
  A thrown value. Both files only ever read \<open>error.message\<close> (or \<open>String(error)\<close>) of it.
\<close>

datatype js_error = Error (message: jsstring)

section \<open>The adaptive transcoders\<close>

subsection \<open>The codec service and the temporary directory\<close>

text \<open>
  What one \<open>ffmpeg(video).outputOptions([...]).save(webpFile)\<close> call asks of the codec.
  The options that are the same in every call of both files (\<open>-an\<close>, \<open>-vsync 0\<close>,
  \<open>-vcodec libwebp\<close>, \<open>-loop 0\<close>, \<open>-preset default\<close>, the 512x512 scale and pad) are
  left out; the fields are the options that vary: \<open>-t\<close>, \<open>-compression_level\<close>,
  \<open>-q:v\<close>, \<open>-method\<close>, the \<open>fps=\<close> filter, whether the scale filter carries
  \<open>flags=lanczos\<close> and whether the \<open>mpdecimate\<close> filter is in the chain.
\<close>

record encode_request =
  req_duration :: nat
  req_compression :: nat
  req_quality :: nat
  req_method :: nat
  req_fps :: nat
  req_lanczos :: bool
  req_mpdecimate :: bool

text \<open>
  The codec is the external collaborator: given the bytes of the input file and a request
  it either fails with an error or produces the encoded bytes. It is a parameter of
  every function below.
\<close>

type_synonym codec = "buffer \<Rightarrow> encode_request \<Rightarrow> js_error + buffer"

text \<open>
  The part of the outside world the transcoders touch: the files of the temporary
  directory, and the log of the requests the codec has been invoked with (kept so that
  "the codec was not invoked again" is a statement about the state).
\<close>

record world =
  files :: "path \<rightharpoonup> buffer"
  invoked :: "encode_request list"

text \<open>
  The file operations on this directory: a write always succeeds; reading or removing a
  file that is not there is rejected with Node's error
  \<open>ENOENT: no such file or directory, <syscall> '<path>'\<close>.
\<close>

definition writeFile :: "path \<Rightarrow> buffer \<Rightarrow> world \<Rightarrow> world" where
  "writeFile p d w = w\<lparr>files := (files w)(p \<mapsto> d)\<rparr>"

definition enoent :: "string \<Rightarrow> path \<Rightarrow> js_error" where
  "enoent syscall p =
     Error (js ''ENOENT: no such file or directory, '' @ js syscall @ js '' ''
            @ [of_char (CHR 0x27)] @ p @ [of_char (CHR 0x27)])"

definition readFile :: "path \<Rightarrow> world \<Rightarrow> js_error + buffer" where
  "readFile p w =
     (case files w p of
        None \<Rightarrow> Inl (enoent ''open'' p)
      | Some d \<Rightarrow> Inr d)"

definition unlink :: "path \<Rightarrow> world \<Rightarrow> js_error + world" where
  "unlink p w =
     (case files w p of
        None \<Rightarrow> Inl (enoent ''unlink'' p)
      | Some d \<Rightarrow> Inr (w\<lparr>files := (files w)(p := None)\<rparr>))"

text \<open>\<open>try { await unlink(p) } catch {}\<close>: a failed removal is swallowed.\<close>

definition try_unlink :: "path \<Rightarrow> world \<Rightarrow> world" where
  "try_unlink p w = (case unlink p w of Inl e \<Rightarrow> w | Inr w' \<Rightarrow> w')"

text \<open>
  One codec invocation, \<open>ffmpeg(video)...save(webpFile)\<close> awaited through its
  \<open>end\<close>/\<open>error\<close> events. The invocation is logged; the codec reads the input file; on
  success the output is at \<open>webpFile\<close>. On failure the model writes no output, as the
  codec contract has it (a produced buffer at a known path, or a failure with no partial
  buffer); an encoder that leaves a partial \<open>webpFile\<close> behind before failing is outside
  this model, and nothing below is stated about the output files of failed attempts.
\<close>

definition ffmpeg_save ::
  "codec \<Rightarrow> path \<Rightarrow> encode_request \<Rightarrow> path \<Rightarrow> world \<Rightarrow> (js_error + unit) \<times> world" where
  "ffmpeg_save cdc video req webpFile w =
     (let w1 = w\<lparr>invoked := invoked w @ [req]\<rparr> in
      case files w1 video of
        None \<Rightarrow> (Inl (Error (js ''No such file or directory'')), w1)
      | Some d \<Rightarrow>
          (case cdc d req of
             Inl e \<Rightarrow> (Inl e, w1)
           | Inr out \<Rightarrow> (Inr (), w1\<lparr>files := (files w1)(webpFile \<mapsto> out)\<rparr>)))"

subsection \<open>\<open>adaptiveVideoToWebp\<close>\<close>

record settings =
  quality :: nat
  fps :: nat
  duration :: nat
  compression :: nat

definition qualityLevels :: "settings list" where
  "qualityLevels =
     [\<lparr>quality = 60, fps = 12, duration = 8, compression = 4\<rparr>,
      \<lparr>quality = 50, fps = 10, duration = 6, compression = 5\<rparr>,
      \<lparr>quality = 40, fps = 8, duration = 5, compression = 6\<rparr>,
      \<lparr>quality = 30, fps = 6, duration = 4, compression = 6\<rparr>,
      \<lparr>quality = 20, fps = 5, duration = 3, compression = 6\<rparr>]"

text \<open>The request of a ladder entry: \<open>-method 6\<close>, plain scale, \<open>mpdecimate\<close> always.\<close>

definition request :: "settings \<Rightarrow> encode_request" where
  "request s =
     \<lparr>req_duration = duration s, req_compression = compression s,
      req_quality = quality s, req_method = 6, req_fps = fps s,
      req_lanczos = False, req_mpdecimate = True\<rparr>"

definition video_path :: "path \<Rightarrow> path" where
  "video_path filename = filename @ js ''.video''"

definition webp_path :: "path \<Rightarrow> nat \<Rightarrow> path" where
  "webp_path filename q = filename @ js ''_q'' @ js (show_nat q) @ js ''.webp''"

text \<open>
  The \<open>for (const settings of qualityLevels)\<close> loop, as recursion on the entries still
  to try. The returned option is the variable \<open>result\<close> when the loop ends (\<open>null\<close>
  is \<open>None\<close>). \<open>settings === qualityLevels[qualityLevels.length - 1]\<close> compares object
  identity with the last entry, which holds exactly when no entry remains.
  A failure of the codec or of \<open>readFile\<close> lands in the \<open>catch\<close>, which continues.
\<close>

fun adaptiveVideoToWebp_loop ::
  "codec \<Rightarrow> path \<Rightarrow> nat \<Rightarrow> settings list \<Rightarrow> world \<Rightarrow> buffer option \<times> world" where
  "adaptiveVideoToWebp_loop cdc filename targetSize [] w = (None, w)"
| "adaptiveVideoToWebp_loop cdc filename targetSize (s # rest) w =
     (let webpFile = webp_path filename (quality s) in
      case ffmpeg_save cdc (video_path filename) (request s) webpFile w of
        (Inl error, w1) \<Rightarrow> adaptiveVideoToWebp_loop cdc filename targetSize rest w1
      | (Inr u, w1) \<Rightarrow>
          (case readFile webpFile w1 of
             Inl error \<Rightarrow> adaptiveVideoToWebp_loop cdc filename targetSize rest w1
           | Inr buffer \<Rightarrow>
               (let w2 = try_unlink webpFile w1 in
                if length buffer \<le> targetSize then (Some buffer, w2)
                else if rest = [] then (Some buffer, w2)
                else adaptiveVideoToWebp_loop cdc filename targetSize rest w2)))"

declare adaptiveVideoToWebp_loop.simps(2) [simp del]

text \<open>
  The whole function, with the ladder as a parameter; \<open>filename\<close> is the random name
  \<open>`${tmpdir()}/${Math.random().toString(36)}`\<close>.
\<close>

definition adaptiveVideoToWebp_with ::
  "settings list \<Rightarrow> codec \<Rightarrow> path \<Rightarrow> buffer \<Rightarrow> nat \<Rightarrow> world \<Rightarrow> (js_error + buffer) \<times> world" where
  "adaptiveVideoToWebp_with ladder cdc filename data targetSize w =
     (let video = video_path filename;
          w1 = writeFile video data w
      in case adaptiveVideoToWebp_loop cdc filename targetSize ladder w1 of
           (result, w2) \<Rightarrow>
             (let w3 = try_unlink video w2 in
              case result of
                None \<Rightarrow> (Inl (Error (js ''Failed to convert video with any quality settings'')), w3)
              | Some buffer \<Rightarrow> (Inr buffer, w3)))"

definition adaptiveVideoToWebp ::
  "codec \<Rightarrow> path \<Rightarrow> buffer \<Rightarrow> nat \<Rightarrow> world \<Rightarrow> (js_error + buffer) \<times> world" where
  "adaptiveVideoToWebp = adaptiveVideoToWebp_with qualityLevels"

subsection \<open>\<open>videoToGif\<close> (optimized)\<close>

record settings_opt =
  quality_opt :: nat
  fps_opt :: nat
  duration_opt :: nat
  compression_opt :: nat
  method_opt :: nat

definition qualityLevels_opt :: "settings_opt list" where
  "qualityLevels_opt =
     [\<lparr>quality_opt = 50, fps_opt = 10, duration_opt = 6, compression_opt = 5, method_opt = 4\<rparr>,
      \<lparr>quality_opt = 40, fps_opt = 8, duration_opt = 5, compression_opt = 6, method_opt = 6\<rparr>,
      \<lparr>quality_opt = 30, fps_opt = 6, duration_opt = 4, compression_opt = 6, method_opt = 6\<rparr>,
      \<lparr>quality_opt = 25, fps_opt = 5, duration_opt = 3, compression_opt = 6, method_opt = 6\<rparr>]"

text \<open>
  The request of entry \<open>i\<close>: its own \<open>-method\<close>, \<open>flags=lanczos\<close>, and \<open>mpdecimate\<close>
  only when \<open>i > 1\<close>.
\<close>

definition request_opt :: "nat \<Rightarrow> settings_opt \<Rightarrow> encode_request" where
  "request_opt i s =
     \<lparr>req_duration = duration_opt s, req_compression = compression_opt s,
      req_quality = quality_opt s, req_method = method_opt s, req_fps = fps_opt s,
      req_lanczos = True, req_mpdecimate = (i > 1)\<rparr>"

definition targetSize_opt :: nat where
  "targetSize_opt = 500 * 1024"

text \<open>
  The \<open>for (let i = 0; i < qualityLevels.length; i++)\<close> loop, as recursion on the entries
  from index \<open>i\<close> on; \<open>i === qualityLevels.length - 1\<close> holds exactly when no entry
  remains after the current one. The result is \<open>Inl\<close> when the \<open>catch\<close> rethrows (the
  last attempt failed), and otherwise the variable \<open>result\<close> at the end of the loop.
\<close>

fun videoToGif_loop ::
  "codec \<Rightarrow> path \<Rightarrow> nat \<Rightarrow> settings_opt list \<Rightarrow> world \<Rightarrow> (js_error + buffer option) \<times> world" where
  "videoToGif_loop cdc filename i [] w = (Inr None, w)"
| "videoToGif_loop cdc filename i (s # rest) w =
     (let webpFile = webp_path filename (quality_opt s) in
      case ffmpeg_save cdc (video_path filename) (request_opt i s) webpFile w of
        (Inl error, w1) \<Rightarrow>
          (if rest = [] then (Inl error, w1)
           else videoToGif_loop cdc filename (i + 1) rest w1)
      | (Inr u, w1) \<Rightarrow>
          (case readFile webpFile w1 of
             Inl error \<Rightarrow>
               (if rest = [] then (Inl error, w1)
                else videoToGif_loop cdc filename (i + 1) rest w1)
           | Inr buffer \<Rightarrow>
               (let w2 = try_unlink webpFile w1 in
                if length buffer \<le> targetSize_opt then (Inr (Some buffer), w2)
                else if rest = [] then (Inr (Some buffer), w2)
                else videoToGif_loop cdc filename (i + 1) rest w2)))"

declare videoToGif_loop.simps(2) [simp del]

text \<open>
  The whole function. A rethrown error leaves the function from inside the loop, before
  the removal of the input file.
\<close>

definition videoToGif_with ::
  "settings_opt list \<Rightarrow> codec \<Rightarrow> path \<Rightarrow> buffer \<Rightarrow> world \<Rightarrow> (js_error + buffer) \<times> world" where
  "videoToGif_with ladder cdc filename data w =
     (let video = video_path filename;
          w1 = writeFile video data w
      in case videoToGif_loop cdc filename 0 ladder w1 of
           (Inl error, w2) \<Rightarrow> (Inl error, w2)
         | (Inr result, w2) \<Rightarrow>
             (let w3 = try_unlink video w2 in
              case result of
                None \<Rightarrow> (Inl (Error (js ''Failed to convert video with any quality settings'')), w3)
              | Some buffer \<Rightarrow> (Inr buffer, w3)))"

definition videoToGif :: "codec \<Rightarrow> path \<Rightarrow> buffer \<Rightarrow> world \<Rightarrow> (js_error + buffer) \<times> world" where
  "videoToGif = videoToGif_with qualityLevels_opt"

subsection \<open>Vocabulary for the properties of the ladder walk\<close>

text \<open>
  The outcome of one codec invocation passes the size check when it is a buffer of at
  most \<open>targetSize\<close> bytes (\<open>buffer.length <= targetSize\<close>).
\<close>

definition within_target :: "nat \<Rightarrow> js_error + buffer \<Rightarrow> bool" where
  "within_target targetSize out =
     (case out of Inl e \<Rightarrow> False | Inr b \<Rightarrow> length b \<le> targetSize)"

subsection \<open>Sample inputs\<close>

definition sample_filename :: path where
  "sample_filename = js ''/tmp/0.8q2x7kz1''"

definition sample_data :: buffer where
  "sample_data = [0x1A, 0x45, 0xDF, 0xA3]"

definition empty_world :: world where
  "empty_world = \<lparr>files = Map.empty, invoked = []\<rparr>"

text \<open>600 KiB at quality 50 and above, 420 KiB below.\<close>

definition codec_two_sizes :: codec where
  "codec_two_sizes d r =
     (if 50 \<le> req_quality r then Inr (replicate (600 * 1024) 0)
      else Inr (replicate (420 * 1024) 0))"

text \<open>600 KiB at quality 50 and above, a failure below.\<close>

definition codec_oversized_then_failing :: codec where
  "codec_oversized_then_failing d r =
     (if 50 \<le> req_quality r then Inr (replicate (600 * 1024) 0)
      else Inl (Error (js ''Conversion failed'')))"

definition codec_failing :: codec where
  "codec_failing d r = Inl (Error (js ''Invalid data found when processing input''))"

definition codec_oversized :: codec where
  "codec_oversized d r = Inr (replicate (600 * 1024) 0)"

section \<open>The compliance validator\<close>

subsection \<open>The report and the limits\<close>

datatype sticker_type = Static | Animated

record file_size_report =
  fs_size :: nat
  fs_isValid :: bool
  fs_limit :: nat
  fs_type :: sticker_type

record dimensions_report =
  dim_width :: nat
  dim_height :: nat
  dim_isValid :: bool

text \<open>The shape \<open>{ value: string; isValid: boolean; limit: number }\<close> of pack, author and id.\<close>

record text_report =
  txt_value :: jsstring
  txt_isValid :: bool
  txt_limit :: nat

record categories_report =
  cat_value :: "jsstring list"
  cat_isValid :: bool
  cat_count :: nat
  cat_limit :: nat

record metadata_report =
  md_pack :: text_report
  md_author :: text_report
  md_id :: text_report
  md_categories :: categories_report

text \<open>\<open>IWhatsAppValidationResult\<close>.\<close>

record validation_result =
  isValid :: bool
  errors :: "jsstring list"
  warnings :: "jsstring list"
  fileSize :: file_size_report
  dimensions :: dimensions_report
  metadata :: metadata_report

text \<open>
  \<open>Partial<IStickerOptions>\<close>, the fields the validator reads; an absent field is
  \<open>None\<close>.
\<close>

record sticker_options =
  so_pack :: "jsstring option"
  so_author :: "jsstring option"
  so_id :: "jsstring option"
  so_categories :: "jsstring list option"

text \<open>The entries of \<open>WHATSAPP_LIMITS\<close> the validator uses.\<close>

definition STATIC_MAX_SIZE :: nat where "STATIC_MAX_SIZE = 100 * 1024"
definition ANIMATED_MAX_SIZE :: nat where "ANIMATED_MAX_SIZE = 500 * 1024"
definition STICKER_SIZE :: nat where "STICKER_SIZE = 512"
definition PACK_NAME_MAX_LENGTH :: nat where "PACK_NAME_MAX_LENGTH = 128"
definition AUTHOR_MAX_LENGTH :: nat where "AUTHOR_MAX_LENGTH = 128"
definition ID_MAX_LENGTH :: nat where "ID_MAX_LENGTH = 128"
definition MAX_CATEGORIES_PER_STICKER :: nat where "MAX_CATEGORIES_PER_STICKER = 3"
definition RECOMMENDED_FILE_SIZE :: nat where "RECOMMENDED_FILE_SIZE = 15 * 1024"

subsection \<open>The libraries\<close>

text \<open>
  \<open>fromBuffer\<close> of file-type resolves to \<open>undefined\<close> or to \<open>{ext, mime}\<close>, or rejects;
  \<open>sharp(buffer).metadata()\<close> resolves to a metadata object whose \<open>width\<close>, \<open>height\<close>
  and \<open>pages\<close> may be absent, or rejects. Both are parameters, and the same buffer gets
  the same answer each time it is asked.
\<close>

record file_type =
  ft_ext :: jsstring
  ft_mime :: jsstring

record sharp_meta =
  sm_width :: "nat option"
  sm_height :: "nat option"
  sm_pages :: "nat option"

record libs =
  fromBuffer :: "buffer \<Rightarrow> js_error + file_type option"
  sharp_metadata :: "buffer \<Rightarrow> js_error + sharp_meta"

subsection \<open>Formatting\<close>

text \<open>
  \<open>(n / 1024).toFixed(1)\<close> for a byte count \<open>n\<close>. The quotient by a power of two is
  exact in a double, and \<open>toFixed(1)\<close> picks the integer \<open>k\<close> with \<open>k / 10\<close> nearest to
  it, the larger one on a tie: \<open>k = \<lfloor>(10 n + 512) / 1024\<rfloor>\<close>, printed with one decimal.
\<close>

definition toFixed1_KB :: "nat \<Rightarrow> string" where
  "toFixed1_KB n =
     (let k = (n * 10 + 512) div 1024
      in show_nat (k div 10) @ ''.'' @ show_nat (k mod 10))"

text \<open>
  \<open>/^[a-zA-Z0-9_\-. ]+$/.test(id)\<close>: the whole string, at least one code unit, every
  code unit in the class.
\<close>

definition id_char_allowed :: "16 word \<Rightarrow> bool" where
  "id_char_allowed c \<longleftrightarrow>
     (0x61 \<le> c \<and> c \<le> 0x7A) \<or> (0x41 \<le> c \<and> c \<le> 0x5A) \<or> (0x30 \<le> c \<and> c \<le> 0x39)
     \<or> c = 0x5F \<or> c = 0x2D \<or> c = 0x2E \<or> c = 0x20"

definition id_regex_test :: "jsstring \<Rightarrow> bool" where
  "id_regex_test s \<longleftrightarrow> s \<noteq> [] \<and> list_all id_char_allowed s"

subsection \<open>The checks\<close>

definition isAnimatedSticker :: "libs \<Rightarrow> buffer \<Rightarrow> bool" where
  "isAnimatedSticker l buffer =
     (case fromBuffer l buffer of
        Inl e \<Rightarrow> False
      | Inr None \<Rightarrow> False
      | Inr (Some fileType) \<Rightarrow>
          if ft_mime fileType = js ''image/webp'' then
            (case sharp_metadata l buffer of
               Inl e \<Rightarrow> False
             | Inr m \<Rightarrow> (case sm_pages m of None \<Rightarrow> False | Some p \<Rightarrow> p > 1))
          else ft_mime fileType = js ''image/gif'')"

definition file_size_error :: "nat \<Rightarrow> nat \<Rightarrow> bool \<Rightarrow> jsstring" where
  "file_size_error size' limit isAnimated =
     js ''File size '' @ js (toFixed1_KB size') @ js ''KB exceeds WhatsApp limit of ''
       @ js (toFixed1_KB limit) @ js ''KB for ''
       @ js (if isAnimated then ''animated'' else ''static'') @ js '' stickers''"

definition file_size_warning :: "nat \<Rightarrow> jsstring" where
  "file_size_warning size' =
     js ''File size '' @ js (toFixed1_KB size')
       @ js ''KB is much larger than the recommended ~15KB for optimal performance''"

definition validateFileSize :: "buffer \<Rightarrow> bool \<Rightarrow> validation_result \<Rightarrow> validation_result" where
  "validateFileSize buffer isAnimated result =
     (let size' = length buffer;
          limit = (if isAnimated then ANIMATED_MAX_SIZE else STATIC_MAX_SIZE);
          result = result\<lparr>fileSize :=
                     (fileSize result)\<lparr>fs_size := size', fs_limit := limit,
                                       fs_isValid := size' \<le> limit\<rparr>\<rparr>;
          result = (if \<not> fs_isValid (fileSize result)
                    then result\<lparr>errors := errors result @ [file_size_error size' limit isAnimated]\<rparr>
                    else result)
      in if size' > RECOMMENDED_FILE_SIZE * 3
         then result\<lparr>warnings := warnings result @ [file_size_warning size']\<rparr>
         else result)"

definition dimensions_error :: "nat \<Rightarrow> nat \<Rightarrow> jsstring" where
  "dimensions_error width height =
     js ''Sticker dimensions '' @ js (show_nat width) @ js ''x'' @ js (show_nat height)
       @ js '' must be exactly '' @ js (show_nat STICKER_SIZE) @ js ''x''
       @ js (show_nat STICKER_SIZE) @ js '' pixels''"

definition dimensions_failure :: "js_error \<Rightarrow> jsstring" where
  "dimensions_failure error = js ''Failed to read sticker dimensions: '' @ message error"

text \<open>\<open>const { width = 0, height = 0 } = metadata\<close>: an absent field reads as 0.\<close>

definition or_zero :: "nat option \<Rightarrow> nat" where
  "or_zero field = (case field of None \<Rightarrow> 0 | Some n \<Rightarrow> n)"

definition validateDimensions :: "libs \<Rightarrow> buffer \<Rightarrow> validation_result \<Rightarrow> validation_result" where
  "validateDimensions l buffer result =
     (case sharp_metadata l buffer of
        Inr m \<Rightarrow>
          (let width = or_zero (sm_width m);
               height = or_zero (sm_height m);
               result = result\<lparr>dimensions :=
                          (dimensions result)\<lparr>dim_width := width, dim_height := height,
                             dim_isValid := (width = STICKER_SIZE \<and> height = STICKER_SIZE)\<rparr>\<rparr>
           in if \<not> dim_isValid (dimensions result)
              then result\<lparr>errors := errors result @ [dimensions_error width height]\<rparr>
              else result)
      | Inl error \<Rightarrow>
          result\<lparr>errors := errors result @ [dimensions_failure error],
                 dimensions := (dimensions result)\<lparr>dim_isValid := False\<rparr>\<rparr>)"

definition pack_error :: jsstring where
  "pack_error = js ''Pack name exceeds '' @ js (show_nat PACK_NAME_MAX_LENGTH) @ js '' character limit''"

definition author_error :: jsstring where
  "author_error = js ''Author name exceeds '' @ js (show_nat AUTHOR_MAX_LENGTH) @ js '' character limit''"

definition id_length_error :: jsstring where
  "id_length_error = js ''Sticker ID exceeds '' @ js (show_nat ID_MAX_LENGTH) @ js '' character limit''"

definition id_charset_error :: jsstring where
  "id_charset_error =
     js (''Sticker ID contains invalid characters. Only a-z, A-Z, 0-9, '' @ [CHR 0x22] @ ''_''
         @ [CHR 0x22] @ '', '' @ [CHR 0x22] @ ''-'' @ [CHR 0x22] @ '', '' @ [CHR 0x22] @ ''.''
         @ [CHR 0x22] @ '', and '' @ [CHR 0x22] @ '' '' @ [CHR 0x22] @ '' are allowed'')"

definition too_many_categories_error :: "nat \<Rightarrow> jsstring" where
  "too_many_categories_error n =
     js ''Too many categories ('' @ js (show_nat n) @ js ''). Maximum ''
       @ js (show_nat MAX_CATEGORIES_PER_STICKER) @ js '' emojis allowed per sticker''"

definition no_categories_warning :: jsstring where
  "no_categories_warning =
     js ''No emoji categories provided. Adding 1-3 relevant emojis helps users discover your stickers through search''"

definition stroke_warning :: jsstring where
  "stroke_warning =
     js ''Consider adding an 8px white stroke around your sticker for better visibility on different backgrounds (as recommended by WhatsApp)''"

text \<open>
  \<open>or_empty\<close> is \<open>metadata.pack || ''\<close> and its like: an absent field and the empty
  string both give the empty string; \<open>metadata.categories || []\<close> gives the empty array
  for an absent field. \<open>if (id && ...)\<close> tests that \<open>id\<close> is not the empty string. The locals
  \<open>size\<close> and \<open>id\<close> are written \<open>size'\<close> and \<open>id'\<close>.
\<close>

definition or_empty :: "'a list option \<Rightarrow> 'a list" where
  "or_empty field = (case field of None \<Rightarrow> [] | Some s \<Rightarrow> s)"

text \<open>
  \<open>validateMetadata\<close> works through five commented blocks on the same result object.
  Each of the first four blocks is a definition of its own, in the order of the source.
\<close>

definition validateMetadata_pack :: "sticker_options \<Rightarrow> validation_result \<Rightarrow> validation_result" where
  "validateMetadata_pack m result =
     (let pack = or_empty (so_pack m);
          result = result\<lparr>metadata := (metadata result)\<lparr>md_pack :=
                     (md_pack (metadata result))\<lparr>txt_value := pack\<rparr>\<rparr>\<rparr>
      in if length pack > PACK_NAME_MAX_LENGTH
         then result\<lparr>metadata := (metadata result)\<lparr>md_pack :=
                       (md_pack (metadata result))\<lparr>txt_isValid := False\<rparr>\<rparr>,
                     errors := errors result @ [pack_error]\<rparr>
         else result)"

definition validateMetadata_author :: "sticker_options \<Rightarrow> validation_result \<Rightarrow> validation_result" where
  "validateMetadata_author m result =
     (let author = or_empty (so_author m);
          result = result\<lparr>metadata := (metadata result)\<lparr>md_author :=
                     (md_author (metadata result))\<lparr>txt_value := author\<rparr>\<rparr>\<rparr>
      in if length author > AUTHOR_MAX_LENGTH
         then result\<lparr>metadata := (metadata result)\<lparr>md_author :=
                       (md_author (metadata result))\<lparr>txt_isValid := False\<rparr>\<rparr>,
                     errors := errors result @ [author_error]\<rparr>
         else result)"

definition validateMetadata_id :: "sticker_options \<Rightarrow> validation_result \<Rightarrow> validation_result" where
  "validateMetadata_id m result =
     (let id' = or_empty (so_id m);
          result = result\<lparr>metadata := (metadata result)\<lparr>md_id :=
                     (md_id (metadata result))\<lparr>txt_value := id'\<rparr>\<rparr>\<rparr>;
          result = (if length id' > ID_MAX_LENGTH
                    then result\<lparr>metadata := (metadata result)\<lparr>md_id :=
                                  (md_id (metadata result))\<lparr>txt_isValid := False\<rparr>\<rparr>,
                                errors := errors result @ [id_length_error]\<rparr>
                    else result)
      in if id' \<noteq> [] \<and> \<not> id_regex_test id'
         then result\<lparr>metadata := (metadata result)\<lparr>md_id :=
                       (md_id (metadata result))\<lparr>txt_isValid := False\<rparr>\<rparr>,
                     errors := errors result @ [id_charset_error]\<rparr>
         else result)"

definition validateMetadata_categories ::
  "sticker_options \<Rightarrow> validation_result \<Rightarrow> validation_result" where
  "validateMetadata_categories m result =
     (let categories = or_empty (so_categories m);
          result = result\<lparr>metadata := (metadata result)\<lparr>md_categories :=
                     (md_categories (metadata result))\<lparr>cat_value := categories,
                                                       cat_count := length categories\<rparr>\<rparr>\<rparr>;
          result = (if length categories > MAX_CATEGORIES_PER_STICKER
                    then result\<lparr>metadata := (metadata result)\<lparr>md_categories :=
                                  (md_categories (metadata result))\<lparr>cat_isValid := False\<rparr>\<rparr>,
                                errors := errors result
                                  @ [too_many_categories_error (length categories)]\<rparr>
                    else result)
      in if length categories = 0
         then result\<lparr>warnings := warnings result @ [no_categories_warning]\<rparr>
         else result)"

definition validateMetadata :: "sticker_options \<Rightarrow> validation_result \<Rightarrow> validation_result" where
  "validateMetadata m result =
     (let result = validateMetadata_pack m result;
          result = validateMetadata_author m result;
          result = validateMetadata_id m result;
          result = validateMetadata_categories m result
      in result\<lparr>warnings := warnings result @ [stroke_warning]\<rparr>)"

text \<open>
  The two signs in the first warning are the code units the source file holds there
  (three each).
\<close>

definition animated_warning :: jsstring where
  "animated_warning =
     js ''Animated sticker detected. Ensure animation duration is '' @ [0xE2, 0x2030, 0xA4]
       @ js ''10 seconds and frame duration is '' @ [0xE2, 0x2030, 0xA5] @ js ''8ms''"

definition frame_count_warning :: "nat \<Rightarrow> jsstring" where
  "frame_count_warning pages =
     js ''High frame count ('' @ js (show_nat pages)
       @ js ''). Consider reducing frames to keep within 10-second duration limit''"

definition animated_failure_warning :: "js_error \<Rightarrow> jsstring" where
  "animated_failure_warning error =
     js ''Could not fully validate animated sticker properties: '' @ message error"

definition validateAnimatedSticker :: "libs \<Rightarrow> buffer \<Rightarrow> validation_result \<Rightarrow> validation_result" where
  "validateAnimatedSticker l buffer result =
     (case sharp_metadata l buffer of
        Inr m \<Rightarrow>
          (case sm_pages m of
             None \<Rightarrow> result
           | Some pages \<Rightarrow>
               if pages \<noteq> 0 \<and> pages > 1 then
                 (let result = result\<lparr>warnings := warnings result @ [animated_warning]\<rparr>
                  in if pages > 150
                     then result\<lparr>warnings := warnings result @ [frame_count_warning pages]\<rparr>
                     else result)
               else result)
      | Inl error \<Rightarrow>
          result\<lparr>warnings := warnings result @ [animated_failure_warning error]\<rparr>)"

subsection \<open>\<open>validateSticker\<close>\<close>

text \<open>The limit \<open>validateFileSize\<close> picks: \<open>isAnimated ? ANIMATED_MAX_SIZE : STATIC_MAX_SIZE\<close>.\<close>

definition size_limit :: "bool \<Rightarrow> nat" where
  "size_limit isAnimated = (if isAnimated then ANIMATED_MAX_SIZE else STATIC_MAX_SIZE)"

definition initial_result :: validation_result where
  "initial_result =
     \<lparr>isValid = True, errors = [], warnings = [],
      fileSize = \<lparr>fs_size = 0, fs_isValid = True, fs_limit = 0, fs_type = Static\<rparr>,
      dimensions = \<lparr>dim_width = 0, dim_height = 0, dim_isValid = True\<rparr>,
      metadata =
        \<lparr>md_pack = \<lparr>txt_value = [], txt_isValid = True, txt_limit = PACK_NAME_MAX_LENGTH\<rparr>,
         md_author = \<lparr>txt_value = [], txt_isValid = True, txt_limit = AUTHOR_MAX_LENGTH\<rparr>,
         md_id = \<lparr>txt_value = [], txt_isValid = True, txt_limit = ID_MAX_LENGTH\<rparr>,
         md_categories = \<lparr>cat_value = [], cat_isValid = True, cat_count = 0,
                          cat_limit = MAX_CATEGORIES_PER_STICKER\<rparr>\<rparr>\<rparr>"

text \<open>
  The body of the \<open>try\<close> block. Its value is \<open>Inr\<close> of the returned result, or \<open>Inl\<close>
  of a thrown error together with the result object as it is at the throw. Every library
  call of the five steps sits inside a \<open>try\<close> of the step itself, and the remaining
  statements read fields of a \<open>Buffer\<close> and of a \<open>Partial<IStickerOptions>\<close>, so no
  step hands an error to this level.
\<close>

definition validateSticker_try ::
  "libs \<Rightarrow> buffer \<Rightarrow> sticker_options \<Rightarrow> validation_result
     \<Rightarrow> js_error \<times> validation_result + validation_result" where
  "validateSticker_try l buffer m result =
     (let isAnimated = isAnimatedSticker l buffer;
          result = result\<lparr>fileSize :=
                     (fileSize result)\<lparr>fs_type := (if isAnimated then Animated else Static)\<rparr>\<rparr>;
          result = validateFileSize buffer isAnimated result;
          result = validateDimensions l buffer result;
          result = validateMetadata m result;
          result = (if isAnimated then validateAnimatedSticker l buffer result else result)
      in Inr (result\<lparr>isValid := (length (errors result) = 0)\<rparr>))"

text \<open>The \<open>catch\<close> block of \<open>validateSticker\<close>.\<close>

definition validateSticker_catch :: "js_error \<Rightarrow> validation_result \<Rightarrow> validation_result" where
  "validateSticker_catch error result =
     result\<lparr>isValid := False,
            errors := errors result @ [js ''Validation failed: '' @ message error]\<rparr>"

definition validateSticker :: "libs \<Rightarrow> buffer \<Rightarrow> sticker_options \<Rightarrow> validation_result" where
  "validateSticker l buffer m =
     (case validateSticker_try l buffer m initial_result of
        Inr result \<Rightarrow> result
      | Inl (error, result) \<Rightarrow> validateSticker_catch error result)"

subsection \<open>Sample inputs\<close>

text \<open>Libraries that recognise every buffer as an image of the given type, size and pages.\<close>

definition libs_image :: "string \<Rightarrow> nat \<Rightarrow> nat \<Rightarrow> nat option \<Rightarrow> libs" where
  "libs_image mime w h pages =
     \<lparr>fromBuffer = (\<lambda>b. Inr (Some \<lparr>ft_ext = js ''bin'', ft_mime = js mime\<rparr>)),
      sharp_metadata = (\<lambda>b. Inr \<lparr>sm_width = Some w, sm_height = Some h, sm_pages = pages\<rparr>)\<rparr>"

text \<open>Libraries that recognise nothing and cannot decode.\<close>

definition libs_corrupt :: libs where
  "libs_corrupt =
     \<lparr>fromBuffer = (\<lambda>b. Inr None),
      sharp_metadata = (\<lambda>b. Inl (Error (js ''Input buffer contains unsupported image format'')))\<rparr>"

definition no_options :: sticker_options where
  "no_options = \<lparr>so_pack = None, so_author = None, so_id = None, so_categories = None\<rparr>"

definition bytes :: "nat \<Rightarrow> buffer" where
  "bytes n = replicate n 0"

text \<open>Libraries whose type detection throws, while the decoder reads an animation.\<close>

definition libs_sniff_throws :: libs where
  "libs_sniff_throws =
     \<lparr>fromBuffer = (\<lambda>b. Inl (Error (js ''End-Of-Stream''))),
      sharp_metadata = (\<lambda>b. Inr \<lparr>sm_width = Some 512, sm_height = Some 512, sm_pages = Some 30\<rparr>)\<rparr>"

text \<open>Libraries that recognise a WebP header the decoder cannot read.\<close>

definition libs_broken_webp :: libs where
  "libs_broken_webp =
     \<lparr>fromBuffer = (\<lambda>b. Inr (Some \<lparr>ft_ext = js ''webp'', ft_mime = js ''image/webp''\<rparr>)),
      sharp_metadata = (\<lambda>b. Inl (Error (js ''Input buffer has corrupt header'')))\<rparr>"

text \<open>Libraries that recognise a GIF header the decoder cannot read.\<close>

definition libs_broken_gif :: libs where
  "libs_broken_gif =
     \<lparr>fromBuffer = (\<lambda>b. Inr (Some \<lparr>ft_ext = js ''gif'', ft_mime = js ''image/gif''\<rparr>)),
      sharp_metadata = (\<lambda>b. Inl (Error (js ''Input buffer has corrupt header'')))\<rparr>"

definition options_at_limits :: sticker_options where
  "options_at_limits =
     \<lparr>so_pack = Some (replicate 128 0x41), so_author = Some (js ''ok''),
      so_id = Some (js ''a_b-c.d e''), so_categories = Some []\<rparr>"

definition options_over_limits :: sticker_options where
  "options_over_limits =
     \<lparr>so_pack = Some (replicate 129 0x41), so_author = Some (js ''ok''),
      so_id = Some (js ''a@b''),
      so_categories = Some [[0xD83D, 0xDE00], [0xD83D, 0xDE02], [0xD83C, 0xDF89], [0x2764]]\<rparr>"

section \<open>Properties of the transcoders\<close>

subsection \<open>One attempt\<close>

lemma video_neq_webp: "video_path f \<noteq> webp_path f q"
  by (simp add: video_path_def webp_path_def js_def)

lemma loop_Cons_fail:
  assumes "files w (video_path f) = Some data" "cdc data (request s) = Inl e"
  shows "adaptiveVideoToWebp_loop cdc f t (s # rest) w =
         adaptiveVideoToWebp_loop cdc f t rest (w\<lparr>invoked := invoked w @ [request s]\<rparr>)"
  using assms by (simp add: ffmpeg_save_def adaptiveVideoToWebp_loop.simps(2))

lemma loop_Cons_ok:
  assumes "files w (video_path f) = Some data" "cdc data (request s) = Inr b"
  shows "adaptiveVideoToWebp_loop cdc f t (s # rest) w =
         (if length b \<le> t \<or> rest = []
          then (Some b, w\<lparr>invoked := invoked w @ [request s],
                          files := (files w)(webp_path f (quality s) := None)\<rparr>)
          else adaptiveVideoToWebp_loop cdc f t rest
                 (w\<lparr>invoked := invoked w @ [request s],
                    files := (files w)(webp_path f (quality s) := None)\<rparr>))"
  using assms
  by (simp add: ffmpeg_save_def readFile_def try_unlink_def unlink_def Let_def
      adaptiveVideoToWebp_loop.simps(2))

lemma loop_opt_Cons_fail:
  assumes "files w (video_path f) = Some data" "cdc data (request_opt i s) = Inl e"
  shows "videoToGif_loop cdc f i (s # rest) w =
         (if rest = [] then (Inl e, w\<lparr>invoked := invoked w @ [request_opt i s]\<rparr>)
          else videoToGif_loop cdc f (Suc i) rest (w\<lparr>invoked := invoked w @ [request_opt i s]\<rparr>))"
  using assms by (simp add: ffmpeg_save_def videoToGif_loop.simps(2))

lemma loop_opt_Cons_ok:
  assumes "files w (video_path f) = Some data" "cdc data (request_opt i s) = Inr b"
  shows "videoToGif_loop cdc f i (s # rest) w =
         (if length b \<le> targetSize_opt \<or> rest = []
          then (Inr (Some b), w\<lparr>invoked := invoked w @ [request_opt i s],
                      files := (files w)(webp_path f (quality_opt s) := None)\<rparr>)
          else videoToGif_loop cdc f (Suc i) rest (w\<lparr>invoked := invoked w @ [request_opt i s],
                      files := (files w)(webp_path f (quality_opt s) := None)\<rparr>))"
  using assms
  by (simp add: ffmpeg_save_def readFile_def try_unlink_def unlink_def Let_def
      videoToGif_loop.simps(2))

subsection \<open>The walk of \<open>adaptiveVideoToWebp\<close>\<close>

text \<open>
  If entry \<open>k\<close> is the first whose output passes the size check, the loop ends there with
  that buffer, having invoked the codec for the entries up to \<open>k\<close> and no other.
\<close>

lemma loop_first_fit:
  assumes "files w (video_path f) = Some data" "k < length ls"
    "\<forall>j<k. \<not> within_target t (cdc data (request (ls ! j)))"
    "cdc data (request (ls ! k)) = Inr buf" "length buf \<le> t"
  shows "\<exists>w'. adaptiveVideoToWebp_loop cdc f t ls w = (Some buf, w')
           \<and> invoked w' = invoked w @ map request (take (Suc k) ls)
           \<and> files w' (video_path f) = Some data"
  using assms
proof (induction ls arbitrary: k w)
  case Nil
  then show ?case by simp
next
  case (Cons s rest)
  show ?case
  proof (cases k)
    case 0
    with Cons.prems have "cdc data (request s) = Inr buf" by simp
    then have step: "adaptiveVideoToWebp_loop cdc f t (s # rest) w =
        (Some buf, w\<lparr>invoked := invoked w @ [request s],
                      files := (files w)(webp_path f (quality s) := None)\<rparr>)"
      using loop_Cons_ok[where cdc=cdc and data=data, OF Cons.prems(1)] Cons.prems(5)
      by simp
    show ?thesis unfolding step using Cons.prems(1) 0 by (simp add: video_neq_webp)
  next
    case (Suc k')
    from Cons.prems Suc have k': "k' < length rest"
      and nf: "\<forall>j<k'. \<not> within_target t (cdc data (request (rest ! j)))"
      and hd: "\<not> within_target t (cdc data (request s))"
      and fit: "cdc data (request (rest ! k')) = Inr buf"
      by auto
    from k' have ne: "rest \<noteq> []" by auto
    show ?thesis
    proof (cases "cdc data (request s)")
      case (Inl e)
      let ?w1 = "w\<lparr>invoked := invoked w @ [request s]\<rparr>"
      have inv: "files ?w1 (video_path f) = Some data" using Cons.prems(1) by simp
      have step: "adaptiveVideoToWebp_loop cdc f t (s # rest) w =
                  adaptiveVideoToWebp_loop cdc f t rest ?w1"
        by (rule loop_Cons_fail[where cdc=cdc and data=data, OF Cons.prems(1) Inl])
      from Cons.IH[OF inv k' nf fit Cons.prems(5)]
      show ?thesis unfolding step using Suc by auto
    next
      case (Inr b)
      with hd have big: "\<not> length b \<le> t" by (simp add: within_target_def)
      let ?w2 = "w\<lparr>invoked := invoked w @ [request s],
                      files := (files w)(webp_path f (quality s) := None)\<rparr>"
      have inv: "files ?w2 (video_path f) = Some data"
        using Cons.prems(1) by (simp add: video_neq_webp)
      have step: "adaptiveVideoToWebp_loop cdc f t (s # rest) w =
                  adaptiveVideoToWebp_loop cdc f t rest ?w2"
        using loop_Cons_ok[where cdc=cdc and data=data, OF Cons.prems(1) Inr] big ne
        by simp
      from Cons.IH[OF inv k' nf fit Cons.prems(5)]
      show ?thesis unfolding step using Suc by auto
    qed
  qed
qed

text \<open>
  If no entry passes the size check, every entry is tried, and the loop ends with the
  buffer of the last entry when that one produced a buffer, and with \<open>null\<close> otherwise.
\<close>

lemma loop_no_fit:
  assumes "files w (video_path f) = Some data"
    "\<forall>j<length ls. \<not> within_target t (cdc data (request (ls ! j)))"
  shows "\<exists>w'. adaptiveVideoToWebp_loop cdc f t ls w =
             (if ls = [] then None
              else (case cdc data (request (last ls)) of Inl e \<Rightarrow> None | Inr b \<Rightarrow> Some b), w')
           \<and> invoked w' = invoked w @ map request ls
           \<and> files w' (video_path f) = Some data"
  using assms
proof (induction ls arbitrary: w)
  case Nil
  then show ?case by simp
next
  case (Cons s rest)
  from Cons.prems(2) have hd: "\<not> within_target t (cdc data (request s))"
    and nf: "\<forall>j<length rest. \<not> within_target t (cdc data (request (rest ! j)))"
    by auto
  show ?case
  proof (cases "cdc data (request s)")
    case (Inl e)
    let ?w1 = "w\<lparr>invoked := invoked w @ [request s]\<rparr>"
    have inv: "files ?w1 (video_path f) = Some data" using Cons.prems(1) by simp
    have step: "adaptiveVideoToWebp_loop cdc f t (s # rest) w =
                adaptiveVideoToWebp_loop cdc f t rest ?w1"
      by (rule loop_Cons_fail[where cdc=cdc and data=data, OF Cons.prems(1) Inl])
    from Cons.IH[OF inv nf]
    show ?thesis unfolding step using Inl by auto
  next
    case (Inr b)
    with hd have big: "\<not> length b \<le> t" by (simp add: within_target_def)
    let ?w2 = "w\<lparr>invoked := invoked w @ [request s],
                    files := (files w)(webp_path f (quality s) := None)\<rparr>"
    have inv: "files ?w2 (video_path f) = Some data"
      using Cons.prems(1) by (simp add: video_neq_webp)
    have step: "adaptiveVideoToWebp_loop cdc f t (s # rest) w =
                (if rest = [] then (Some b, ?w2) else adaptiveVideoToWebp_loop cdc f t rest ?w2)"
      using loop_Cons_ok[where cdc=cdc and data=data, OF Cons.prems(1) Inr] big
      by simp
    from Cons.IH[OF inv nf] inv
    show ?thesis unfolding step using Inr by auto
  qed
qed

text \<open>The loop leaves the input file in place.\<close>

lemma loop_files:
  assumes "files w (video_path f) = Some data"
    "adaptiveVideoToWebp_loop cdc f t ls w = (r, w')"
  shows "files w' (video_path f) = Some data"
  using assms
proof (induction ls arbitrary: w)
  case Nil
  then show ?case by auto
next
  case (Cons s rest)
  show ?case
  proof (cases "cdc data (request s)")
    case (Inl e)
    let ?w1 = "w\<lparr>invoked := invoked w @ [request s]\<rparr>"
    have inv: "files ?w1 (video_path f) = Some data" using Cons.prems(1) by simp
    have step: "adaptiveVideoToWebp_loop cdc f t (s # rest) w =
                adaptiveVideoToWebp_loop cdc f t rest ?w1"
      by (rule loop_Cons_fail[where cdc=cdc and data=data, OF Cons.prems(1) Inl])
    from Cons.prems(2) have "adaptiveVideoToWebp_loop cdc f t rest ?w1 = (r, w')"
      unfolding step .
    from Cons.IH[OF inv this] show ?thesis by simp
  next
    case (Inr b)
    let ?w2 = "w\<lparr>invoked := invoked w @ [request s],
                    files := (files w)(webp_path f (quality s) := None)\<rparr>"
    have inv: "files ?w2 (video_path f) = Some data"
      using Cons.prems(1) by (simp add: video_neq_webp)
    have step: "adaptiveVideoToWebp_loop cdc f t (s # rest) w =
                (if length b \<le> t \<or> rest = [] then (Some b, ?w2)
                 else adaptiveVideoToWebp_loop cdc f t rest ?w2)"
      by (rule loop_Cons_ok[where cdc=cdc and data=data, OF Cons.prems(1) Inr])
    show ?thesis
    proof (cases "length b \<le> t \<or> rest = []")
      case True
      with Cons.prems(2) have "w' = ?w2" unfolding step by simp
      with inv show ?thesis by simp
    next
      case False
      with Cons.prems(2) have "adaptiveVideoToWebp_loop cdc f t rest ?w2 = (r, w')"
        unfolding step by simp
      from Cons.IH[OF inv this] show ?thesis .
    qed
  qed
qed

subsection \<open>The walk of \<open>videoToGif\<close>\<close>

lemma loop_opt_first_fit:
  assumes "files w (video_path f) = Some data" "k < length ls"
    "\<forall>j<k. \<not> within_target targetSize_opt (cdc data (request_opt (i + j) (ls ! j)))"
    "cdc data (request_opt (i + k) (ls ! k)) = Inr buf" "length buf \<le> targetSize_opt"
  shows "\<exists>w'. videoToGif_loop cdc f i ls w = (Inr (Some buf), w')
           \<and> invoked w' = invoked w @ map (\<lambda>j. request_opt (i + j) (ls ! j)) [0..<Suc k]
           \<and> files w' (video_path f) = Some data"
  using assms
proof (induction ls arbitrary: k w i)
  case Nil
  then show ?case by simp
next
  case (Cons s rest)
  show ?case
  proof (cases k)
    case 0
    with Cons.prems have "cdc data (request_opt i s) = Inr buf" by simp
    then have step: "videoToGif_loop cdc f i (s # rest) w =
        (Inr (Some buf), w\<lparr>invoked := invoked w @ [request_opt i s],
                      files := (files w)(webp_path f (quality_opt s) := None)\<rparr>)"
      using loop_opt_Cons_ok[where cdc=cdc and data=data, OF Cons.prems(1)] Cons.prems(5)
      by simp
    show ?thesis unfolding step using Cons.prems(1) 0 by (simp add: video_neq_webp)
  next
    case (Suc k')
    from Cons.prems(2) Suc have k': "k' < length rest" by simp
    have nf: "\<forall>j<k'. \<not> within_target targetSize_opt
                        (cdc data (request_opt (Suc i + j) (rest ! j)))"
    proof (intro allI impI)
      fix j assume "j < k'"
      then have "Suc j < k" using Suc by simp
      with Cons.prems(3)
      have "\<not> within_target targetSize_opt
               (cdc data (request_opt (i + Suc j) ((s # rest) ! Suc j)))"
        by blast
      then show "\<not> within_target targetSize_opt
                    (cdc data (request_opt (Suc i + j) (rest ! j)))"
        by simp
    qed
    from Cons.prems(3) Suc
    have hd: "\<not> within_target targetSize_opt (cdc data (request_opt i s))"
      by force
    from Cons.prems(4) Suc
    have fit: "cdc data (request_opt (Suc i + k') (rest ! k')) = Inr buf"
      by simp
    from k' have ne: "rest \<noteq> []" by auto
    have shift: "map (\<lambda>j. request_opt (i + j) ((s # rest) ! j)) [0..<Suc k]
        = request_opt i s # map (\<lambda>j. request_opt (Suc i + j) (rest ! j)) [0..<Suc k']"
      unfolding Suc by (subst map_upt_Suc) simp
    show ?thesis
    proof (cases "cdc data (request_opt i s)")
      case (Inl e)
      let ?w1 = "w\<lparr>invoked := invoked w @ [request_opt i s]\<rparr>"
      have inv: "files ?w1 (video_path f) = Some data" using Cons.prems(1) by simp
      have step: "videoToGif_loop cdc f i (s # rest) w = videoToGif_loop cdc f (Suc i) rest ?w1"
        using loop_opt_Cons_fail[where cdc=cdc and data=data, OF Cons.prems(1) Inl] ne
        by simp
      from Cons.IH[OF inv k' nf fit Cons.prems(5)]
      show ?thesis unfolding step shift by auto
    next
      case (Inr b)
      with hd have big: "\<not> length b \<le> targetSize_opt" by (simp add: within_target_def)
      let ?w2 = "w\<lparr>invoked := invoked w @ [request_opt i s],
                      files := (files w)(webp_path f (quality_opt s) := None)\<rparr>"
      have inv: "files ?w2 (video_path f) = Some data"
        using Cons.prems(1) by (simp add: video_neq_webp)
      have step: "videoToGif_loop cdc f i (s # rest) w = videoToGif_loop cdc f (Suc i) rest ?w2"
        using loop_opt_Cons_ok[where cdc=cdc and data=data, OF Cons.prems(1) Inr] big ne
        by simp
      from Cons.IH[OF inv k' nf fit Cons.prems(5)]
      show ?thesis unfolding step shift by auto
    qed
  qed
qed

text \<open>
  If no entry passes the size check, every entry is tried; the loop ends with the buffer
  of the last entry when that one produced a buffer, and rethrows the error of the last
  entry otherwise. The input file is still in place when the loop is left either way.
\<close>

lemma loop_opt_no_fit:
  assumes "files w (video_path f) = Some data"
    "\<forall>j<length ls. \<not> within_target targetSize_opt (cdc data (request_opt (i + j) (ls ! j)))"
  shows "\<exists>w'. videoToGif_loop cdc f i ls w =
             (if ls = [] then Inr None
              else (case cdc data (request_opt (i + (length ls - 1)) (last ls)) of
                      Inl e \<Rightarrow> Inl e | Inr b \<Rightarrow> Inr (Some b)), w')
           \<and> invoked w' = invoked w @ map (\<lambda>j. request_opt (i + j) (ls ! j)) [0..<length ls]
           \<and> files w' (video_path f) = Some data"
  using assms
proof (induction ls arbitrary: w i)
  case Nil
  then show ?case by simp
next
  case (Cons s rest)
  from Cons.prems(2)
  have hd: "\<not> within_target targetSize_opt (cdc data (request_opt i s))"
    by force
  have nf: "\<forall>j<length rest. \<not> within_target targetSize_opt
                                (cdc data (request_opt (Suc i + j) (rest ! j)))"
  proof (intro allI impI)
    fix j assume "j < length rest"
    then have "Suc j < length (s # rest)" by simp
    with Cons.prems(2)
    have "\<not> within_target targetSize_opt
             (cdc data (request_opt (i + Suc j) ((s # rest) ! Suc j)))"
      by blast
    then show "\<not> within_target targetSize_opt
                  (cdc data (request_opt (Suc i + j) (rest ! j)))"
      by simp
  qed
  have shift: "map (\<lambda>j. request_opt (i + j) ((s # rest) ! j)) [0..<length (s # rest)]
      = request_opt i s # map (\<lambda>j. request_opt (Suc i + j) (rest ! j)) [0..<length rest]"
    by (simp del: upt_Suc add: map_upt_Suc)
  have lastix: "rest \<noteq> [] \<Longrightarrow> Suc (i + (length rest - Suc 0)) = i + length rest"
    by (cases rest) auto
  show ?case
  proof (cases "cdc data (request_opt i s)")
    case (Inl e)
    let ?w1 = "w\<lparr>invoked := invoked w @ [request_opt i s]\<rparr>"
    have inv: "files ?w1 (video_path f) = Some data" using Cons.prems(1) by simp
    have step: "videoToGif_loop cdc f i (s # rest) w =
                (if rest = [] then (Inl e, ?w1) else videoToGif_loop cdc f (Suc i) rest ?w1)"
      by (rule loop_opt_Cons_fail[where cdc=cdc and data=data, OF Cons.prems(1) Inl])
    show ?thesis
    proof (cases "rest = []")
      case True
      then show ?thesis unfolding step shift using Inl inv by simp
    next
      case False
      from Cons.IH[OF inv nf] False
      show ?thesis unfolding step shift by (auto simp: lastix[OF False])
    qed
  next
    case (Inr b)
    with hd have big: "\<not> length b \<le> targetSize_opt" by (simp add: within_target_def)
    let ?w2 = "w\<lparr>invoked := invoked w @ [request_opt i s],
                    files := (files w)(webp_path f (quality_opt s) := None)\<rparr>"
    have inv: "files ?w2 (video_path f) = Some data"
      using Cons.prems(1) by (simp add: video_neq_webp)
    have step: "videoToGif_loop cdc f i (s # rest) w =
                (if rest = [] then (Inr (Some b), ?w2)
                 else videoToGif_loop cdc f (Suc i) rest ?w2)"
      using loop_opt_Cons_ok[where cdc=cdc and data=data, OF Cons.prems(1) Inr] big
      by simp
    show ?thesis
    proof (cases "rest = []")
      case True
      then show ?thesis unfolding step shift using Inr inv by simp
    next
      case False
      from Cons.IH[OF inv nf] False
      show ?thesis unfolding step shift by (auto simp: lastix[OF False])
    qed
  qed
qed

subsection \<open>The whole functions\<close>

lemma invoked_try_unlink: "invoked (try_unlink p w) = invoked w"
  by (simp add: try_unlink_def unlink_def split: option.splits)

lemma adaptive_first_fit:
  assumes "k < length ladder"
    "\<forall>j<k. \<not> within_target t (cdc data (request (ladder ! j)))"
    "cdc data (request (ladder ! k)) = Inr buf" "length buf \<le> t"
  shows "fst (adaptiveVideoToWebp_with ladder cdc f data t w) = Inr buf"
    and "invoked (snd (adaptiveVideoToWebp_with ladder cdc f data t w))
           = invoked w @ map request (take (Suc k) ladder)"
proof -
  let ?w1 = "writeFile (video_path f) data w"
  have inv: "files ?w1 (video_path f) = Some data" by (simp add: writeFile_def)
  have iw1: "invoked ?w1 = invoked w" by (simp add: writeFile_def)
  from loop_first_fit[where cdc=cdc and data=data, OF inv assms]
  obtain w' where w': "adaptiveVideoToWebp_loop cdc f t ladder ?w1 = (Some buf, w')"
    "invoked w' = invoked ?w1 @ map request (take (Suc k) ladder)" by blast
  show "fst (adaptiveVideoToWebp_with ladder cdc f data t w) = Inr buf"
    by (simp add: adaptiveVideoToWebp_with_def Let_def w')
  show "invoked (snd (adaptiveVideoToWebp_with ladder cdc f data t w))
           = invoked w @ map request (take (Suc k) ladder)"
    using w'(2) iw1
    by (simp add: adaptiveVideoToWebp_with_def Let_def w'(1) invoked_try_unlink)
qed

lemma adaptive_no_fit:
  assumes "\<forall>j<length ladder. \<not> within_target t (cdc data (request (ladder ! j)))"
  shows "fst (adaptiveVideoToWebp_with ladder cdc f data t w) =
           (if ladder = []
            then Inl (Error (js ''Failed to convert video with any quality settings''))
            else case cdc data (request (last ladder)) of
                   Inl e \<Rightarrow> Inl (Error (js ''Failed to convert video with any quality settings''))
                 | Inr b \<Rightarrow> Inr b)"
    and "invoked (snd (adaptiveVideoToWebp_with ladder cdc f data t w))
           = invoked w @ map request ladder"
proof -
  let ?w1 = "writeFile (video_path f) data w"
  have inv: "files ?w1 (video_path f) = Some data" by (simp add: writeFile_def)
  have iw1: "invoked ?w1 = invoked w" by (simp add: writeFile_def)
  from loop_no_fit[where cdc=cdc and data=data, OF inv assms]
  obtain w' where w': "adaptiveVideoToWebp_loop cdc f t ladder ?w1 =
             (if ladder = [] then None
              else (case cdc data (request (last ladder)) of
                      Inl e \<Rightarrow> None | Inr b \<Rightarrow> Some b), w')"
    "invoked w' = invoked ?w1 @ map request ladder" by blast
  show "fst (adaptiveVideoToWebp_with ladder cdc f data t w) =
           (if ladder = []
            then Inl (Error (js ''Failed to convert video with any quality settings''))
            else case cdc data (request (last ladder)) of
                   Inl e \<Rightarrow> Inl (Error (js ''Failed to convert video with any quality settings''))
                 | Inr b \<Rightarrow> Inr b)"
    by (simp add: adaptiveVideoToWebp_with_def Let_def w'(1) split: sum.splits)
  show "invoked (snd (adaptiveVideoToWebp_with ladder cdc f data t w))
           = invoked w @ map request ladder"
    using w'(2) iw1
    by (simp add: adaptiveVideoToWebp_with_def Let_def w'(1) invoked_try_unlink
        split: sum.splits)
qed

text \<open>\<open>adaptiveVideoToWebp\<close> removes its input file on every path.\<close>

lemma adaptive_files:
  "files (snd (adaptiveVideoToWebp_with ladder cdc f data t w)) (video_path f) = None"
proof -
  let ?w1 = "writeFile (video_path f) data w"
  have inv: "files ?w1 (video_path f) = Some data" by (simp add: writeFile_def)
  obtain r w2 where loop: "adaptiveVideoToWebp_loop cdc f t ladder ?w1 = (r, w2)"
    by (cases "adaptiveVideoToWebp_loop cdc f t ladder ?w1")
  from loop_files[where cdc=cdc, OF inv loop]
  have kept: "files w2 (video_path f) = Some data" .
  have out: "snd (adaptiveVideoToWebp_with ladder cdc f data t w)
               = w2\<lparr>files := (files w2)(video_path f := None)\<rparr>"
    using kept
    by (simp add: adaptiveVideoToWebp_with_def Let_def loop try_unlink_def unlink_def
        split: option.splits)
  show ?thesis unfolding out by simp
qed

lemma videoToGif_first_fit:
  assumes "k < length ladder"
    "\<forall>j<k. \<not> within_target targetSize_opt (cdc data (request_opt j (ladder ! j)))"
    "cdc data (request_opt k (ladder ! k)) = Inr buf" "length buf \<le> targetSize_opt"
  shows "fst (videoToGif_with ladder cdc f data w) = Inr buf"
    and "invoked (snd (videoToGif_with ladder cdc f data w))
           = invoked w @ map (\<lambda>j. request_opt j (ladder ! j)) [0..<Suc k]"
proof -
  let ?w1 = "writeFile (video_path f) data w"
  have inv: "files ?w1 (video_path f) = Some data" by (simp add: writeFile_def)
  have iw1: "invoked ?w1 = invoked w" by (simp add: writeFile_def)
  from loop_opt_first_fit[where cdc=cdc and data=data and i=0 and ls=ladder and k=k,
        OF inv assms(1), simplified] assms(2-4)
  obtain w' where w': "videoToGif_loop cdc f 0 ladder ?w1 = (Inr (Some buf), w')"
    "invoked w' = invoked ?w1 @ map (\<lambda>j. request_opt j (ladder ! j)) [0..<Suc k]" by auto
  show "fst (videoToGif_with ladder cdc f data w) = Inr buf"
    by (simp add: videoToGif_with_def Let_def w')
  show "invoked (snd (videoToGif_with ladder cdc f data w))
           = invoked w @ map (\<lambda>j. request_opt j (ladder ! j)) [0..<Suc k]"
    using w'(2) iw1 by (simp add: videoToGif_with_def Let_def w'(1) invoked_try_unlink)
qed

lemma videoToGif_no_fit:
  assumes "\<forall>j<length ladder.
             \<not> within_target targetSize_opt (cdc data (request_opt j (ladder ! j)))"
  shows "fst (videoToGif_with ladder cdc f data w) =
           (if ladder = []
            then Inl (Error (js ''Failed to convert video with any quality settings''))
            else case cdc data (request_opt (length ladder - 1) (last ladder)) of
                   Inl e \<Rightarrow> Inl e
                 | Inr b \<Rightarrow> Inr b)"
    and "invoked (snd (videoToGif_with ladder cdc f data w))
           = invoked w @ map (\<lambda>j. request_opt j (ladder ! j)) [0..<length ladder]"
    and "ladder \<noteq> [] \<Longrightarrow>
         cdc data (request_opt (length ladder - 1) (last ladder)) = Inl e \<Longrightarrow>
           files (snd (videoToGif_with ladder cdc f data w)) (video_path f) = Some data"
proof -
  let ?w1 = "writeFile (video_path f) data w"
  have inv: "files ?w1 (video_path f) = Some data" by (simp add: writeFile_def)
  have iw1: "invoked ?w1 = invoked w" by (simp add: writeFile_def)
  from loop_opt_no_fit[where cdc=cdc and data=data and i=0 and ls=ladder,
        OF inv, simplified] assms
  obtain w' where w': "videoToGif_loop cdc f 0 ladder ?w1 =
             (if ladder = [] then Inr None
              else (case cdc data (request_opt (length ladder - 1) (last ladder)) of
                      Inl e \<Rightarrow> Inl e | Inr b \<Rightarrow> Inr (Some b)), w')"
    "invoked w' = invoked ?w1 @ map (\<lambda>j. request_opt j (ladder ! j)) [0..<length ladder]"
    "files w' (video_path f) = Some data" by auto
  show "fst (videoToGif_with ladder cdc f data w) =
           (if ladder = []
            then Inl (Error (js ''Failed to convert video with any quality settings''))
            else case cdc data (request_opt (length ladder - 1) (last ladder)) of
                   Inl e \<Rightarrow> Inl e
                 | Inr b \<Rightarrow> Inr b)"
    by (simp add: videoToGif_with_def Let_def w'(1) split: sum.splits)
  show "invoked (snd (videoToGif_with ladder cdc f data w))
           = invoked w @ map (\<lambda>j. request_opt j (ladder ! j)) [0..<length ladder]"
    using w'(2) iw1
    by (simp add: videoToGif_with_def Let_def w'(1) invoked_try_unlink split: sum.splits)
  show "ladder \<noteq> [] \<Longrightarrow>
         cdc data (request_opt (length ladder - 1) (last ladder)) = Inl e \<Longrightarrow>
           files (snd (videoToGif_with ladder cdc f data w)) (video_path f) = Some data"
    using w'(3) by (simp add: videoToGif_with_def Let_def w'(1))
qed

text \<open>The first index with a property, when some index below \<open>n\<close> has it.\<close>

lemma first_index_with:
  assumes "\<exists>k<n. P k"
  obtains k :: nat where "k < n" "P k" "\<forall>j<k. \<not> P j"
proof -
  from assms obtain k0 where k0: "k0 < n \<and> P k0" by blast
  define k where "k = (LEAST k. k < n \<and> P k)"
  have "k < n \<and> P k" unfolding k_def using k0 by (rule LeastI)
  moreover have "\<forall>j<k. \<not> P j"
  proof (intro allI impI)
    fix j assume "j < k"
    then have "\<not> (j < n \<and> P j)" unfolding k_def by (rule not_less_Least)
    moreover from \<open>j < k\<close> \<open>k < n \<and> P k\<close> have "j < n" by simp
    ultimately show "\<not> P j" by simp
  qed
  ultimately show thesis using that by blast
qed

lemma within_targetE:
  assumes "within_target t out"
  obtains b where "out = Inr b" "length b \<le> t"
  using assms by (cases out) (auto simp: within_target_def)

lemma adaptive_returns_iff:
  "(\<exists>b. fst (adaptiveVideoToWebp_with ladder cdc filename data targetSize w) = Inr b) \<longleftrightarrow>
     (\<exists>k<length ladder. within_target targetSize (cdc data (request (ladder ! k))))
     \<or> (ladder \<noteq> [] \<and> (\<exists>b. cdc data (request (last ladder)) = Inr b))"
proof (cases "\<exists>k<length ladder. within_target targetSize (cdc data (request (ladder ! k)))")
  case True
  then obtain k where k: "k < length ladder"
      "within_target targetSize (cdc data (request (ladder ! k)))"
      "\<forall>j<k. \<not> within_target targetSize (cdc data (request (ladder ! j)))"
    by (rule first_index_with)
  from k(2) obtain buf where buf: "cdc data (request (ladder ! k)) = Inr buf"
      "length buf \<le> targetSize"
    by (rule within_targetE)
  from adaptive_first_fit(1)[where cdc=cdc and data=data, OF k(1) k(3) buf] True
  show ?thesis by blast
next
  case False
  then have nf: "\<forall>j<length ladder.
                   \<not> within_target targetSize (cdc data (request (ladder ! j)))"
    by blast
  show ?thesis unfolding adaptive_no_fit(1)[where cdc=cdc and data=data, OF nf] using False
    by (auto split: sum.splits)
qed

lemma videoToGif_returns_iff:
  "(\<exists>b. fst (videoToGif_with ladder_opt cdc filename data w) = Inr b) \<longleftrightarrow>
     (\<exists>k<length ladder_opt.
         within_target targetSize_opt (cdc data (request_opt k (ladder_opt ! k))))
     \<or> (ladder_opt \<noteq> []
        \<and> (\<exists>b. cdc data (request_opt (length ladder_opt - 1) (last ladder_opt)) = Inr b))"
proof (cases "\<exists>k<length ladder_opt.
                within_target targetSize_opt (cdc data (request_opt k (ladder_opt ! k)))")
  case True
  then obtain k where k: "k < length ladder_opt"
      "within_target targetSize_opt (cdc data (request_opt k (ladder_opt ! k)))"
      "\<forall>j<k. \<not> within_target targetSize_opt (cdc data (request_opt j (ladder_opt ! j)))"
    by (rule first_index_with)
  from k(2) obtain buf where buf: "cdc data (request_opt k (ladder_opt ! k)) = Inr buf"
      "length buf \<le> targetSize_opt"
    by (rule within_targetE)
  from videoToGif_first_fit(1)[where cdc=cdc and data=data, OF k(1) k(3) buf] True
  show ?thesis by blast
next
  case False
  then have nf: "\<forall>j<length ladder_opt.
      \<not> within_target targetSize_opt (cdc data (request_opt j (ladder_opt ! j)))"
    by blast
  show ?thesis unfolding videoToGif_no_fit(1)[where cdc=cdc and data=data, OF nf] using False
    by (auto split: sum.splits)
qed

text \<open>A buffer within the target that is returned is the output of the first entry that passes.\<close>

lemma adaptive_accepted_is_first_fit:
  assumes "fst (adaptiveVideoToWebp_with ladder cdc filename data targetSize w) = Inr b"
    "length b \<le> targetSize"
  shows "\<exists>k<length ladder. cdc data (request (ladder ! k)) = Inr b
           \<and> (\<forall>j<k. \<not> within_target targetSize (cdc data (request (ladder ! j))))"
proof (cases "\<exists>k<length ladder. within_target targetSize (cdc data (request (ladder ! k)))")
  case True
  then obtain k where k: "k < length ladder"
      "within_target targetSize (cdc data (request (ladder ! k)))"
      "\<forall>j<k. \<not> within_target targetSize (cdc data (request (ladder ! j)))"
    by (rule first_index_with)
  from k(2) obtain buf where buf: "cdc data (request (ladder ! k)) = Inr buf"
      "length buf \<le> targetSize"
    by (rule within_targetE)
  from adaptive_first_fit(1)[where cdc=cdc and data=data, OF k(1) k(3) buf] assms(1)
  have "buf = b" by simp
  with k buf show ?thesis by blast
next
  case False
  then have nf: "\<forall>j<length ladder.
                   \<not> within_target targetSize (cdc data (request (ladder ! j)))"
    by blast
  from assms(1) have ne: "ladder \<noteq> []" and ok: "cdc data (request (last ladder)) = Inr b"
    unfolding adaptive_no_fit(1)[where cdc=cdc and data=data, OF nf]
    by (auto split: if_splits sum.splits)
  from ne have "length ladder - 1 < length ladder" by (cases ladder) auto
  with nf have "\<not> within_target targetSize (cdc data (request (ladder ! (length ladder - 1))))"
    by blast
  with ne ok assms(2) show ?thesis
    by (simp add: last_conv_nth within_target_def)
qed

lemma videoToGif_accepted_is_first_fit:
  assumes "fst (videoToGif_with ladder cdc filename data w) = Inr b"
    "length b \<le> targetSize_opt"
  shows "\<exists>k<length ladder. cdc data (request_opt k (ladder ! k)) = Inr b
           \<and> (\<forall>j<k. \<not> within_target targetSize_opt (cdc data (request_opt j (ladder ! j))))"
proof (cases "\<exists>k<length ladder.
                within_target targetSize_opt (cdc data (request_opt k (ladder ! k)))")
  case True
  then obtain k where k: "k < length ladder"
      "within_target targetSize_opt (cdc data (request_opt k (ladder ! k)))"
      "\<forall>j<k. \<not> within_target targetSize_opt (cdc data (request_opt j (ladder ! j)))"
    by (rule first_index_with)
  from k(2) obtain buf where buf: "cdc data (request_opt k (ladder ! k)) = Inr buf"
      "length buf \<le> targetSize_opt"
    by (rule within_targetE)
  from videoToGif_first_fit(1)[where cdc=cdc and data=data, OF k(1) k(3) buf] assms(1)
  have "buf = b" by simp
  with k buf show ?thesis by blast
next
  case False
  then have nf: "\<forall>j<length ladder.
      \<not> within_target targetSize_opt (cdc data (request_opt j (ladder ! j)))"
    by blast
  from assms(1) have ne: "ladder \<noteq> []"
    and ok: "cdc data (request_opt (length ladder - 1) (last ladder)) = Inr b"
    unfolding videoToGif_no_fit(1)[where cdc=cdc and data=data, OF nf]
    by (auto split: if_splits sum.splits)
  from ne have "length ladder - 1 < length ladder" by (cases ladder) auto
  with nf have "\<not> within_target targetSize_opt
      (cdc data (request_opt (length ladder - 1) (ladder ! (length ladder - 1))))"
    by blast
  with ne ok assms(2) show ?thesis
    by (simp add: last_conv_nth within_target_def)
qed

subsection \<open>Claims about the ladder walk\<close>

text \<open>
  C1. First-fit greedy acceptance. For every input, codec and ladder, in both transcoders:
  when entry \<open>k\<close> of the ladder is the first whose encoded output satisfies
  \<open>buffer.length <= targetSize\<close> (every earlier entry failed in the codec or produced a
  larger buffer), the transcoder returns the buffer of entry \<open>k\<close>, and the codec has been
  invoked for the entries \<open>0..k\<close> in ladder order and for no later entry. Conversely, a
  returned buffer that satisfies the size check is the output of an entry before which
  every entry failed the check: no entry is accepted ahead of its turn, and none is
  skipped.
\<close>

theorem first_fit_acceptance:
  "(k < length ladder
      \<and> (\<forall>j<k. \<not> within_target targetSize (cdc data (request (ladder ! j))))
      \<and> cdc data (request (ladder ! k)) = Inr buf \<and> length buf \<le> targetSize
    \<longrightarrow> fst (adaptiveVideoToWebp_with ladder cdc filename data targetSize w) = Inr buf
      \<and> invoked (snd (adaptiveVideoToWebp_with ladder cdc filename data targetSize w))
          = invoked w @ map request (take (Suc k) ladder))
   \<and> (fst (adaptiveVideoToWebp_with ladder cdc filename data targetSize w) = Inr b
      \<and> length b \<le> targetSize
    \<longrightarrow> (\<exists>k<length ladder. cdc data (request (ladder ! k)) = Inr b
           \<and> (\<forall>j<k. \<not> within_target targetSize (cdc data (request (ladder ! j))))))
   \<and> (k_opt < length ladder_opt
      \<and> (\<forall>j<k_opt. \<not> within_target targetSize_opt
                        (cdc data (request_opt j (ladder_opt ! j))))
      \<and> cdc data (request_opt k_opt (ladder_opt ! k_opt)) = Inr buf_opt
      \<and> length buf_opt \<le> targetSize_opt
    \<longrightarrow> fst (videoToGif_with ladder_opt cdc filename data w) = Inr buf_opt
      \<and> invoked (snd (videoToGif_with ladder_opt cdc filename data w))
          = invoked w @ map (\<lambda>j. request_opt j (ladder_opt ! j)) [0..<Suc k_opt])
   \<and> (fst (videoToGif_with ladder_opt cdc filename data w) = Inr b
      \<and> length b \<le> targetSize_opt
    \<longrightarrow> (\<exists>k<length ladder_opt. cdc data (request_opt k (ladder_opt ! k)) = Inr b
           \<and> (\<forall>j<k. \<not> within_target targetSize_opt
                        (cdc data (request_opt j (ladder_opt ! j))))))"
  using adaptive_first_fit[of k ladder targetSize cdc data buf filename w]
    videoToGif_first_fit[of k_opt ladder_opt cdc data buf_opt filename w]
    adaptive_accepted_is_first_fit[of ladder cdc filename data targetSize w b]
    videoToGif_accepted_is_first_fit[of ladder_opt cdc filename data w b]
  by blast

text \<open>
  Witness for C1: a codec that gives 600 KiB at quality 50 and above and 420 KiB below,
  with the target of 500 KiB. \<open>adaptiveVideoToWebp\<close> accepts its third entry (quality 40)
  after three invocations, \<open>videoToGif\<close> its second (quality 40) after two.
\<close>

theorem first_fit_acceptance_witness:
  "fst (adaptiveVideoToWebp codec_two_sizes sample_filename sample_data (500 * 1024) empty_world)
      = Inr (replicate (420 * 1024) 0)
   \<and> invoked (snd (adaptiveVideoToWebp codec_two_sizes sample_filename sample_data
                      (500 * 1024) empty_world))
      = [request (qualityLevels ! 0), request (qualityLevels ! 1), request (qualityLevels ! 2)]
   \<and> fst (videoToGif codec_two_sizes sample_filename sample_data empty_world)
      = Inr (replicate (420 * 1024) 0)
   \<and> invoked (snd (videoToGif codec_two_sizes sample_filename sample_data empty_world))
      = [request_opt 0 (qualityLevels_opt ! 0), request_opt 1 (qualityLevels_opt ! 1)]"
  using first_fit_acceptance[where k=2 and ladder=qualityLevels and targetSize="500 * 1024"
      and cdc=codec_two_sizes and data=sample_data and buf="replicate (420 * 1024) 0"
      and filename=sample_filename and w=empty_world and k_opt=1
      and ladder_opt=qualityLevels_opt and buf_opt="replicate (420 * 1024) 0"]
  by (simp add: adaptiveVideoToWebp_def videoToGif_def qualityLevels_def qualityLevels_opt_def
      codec_two_sizes_def request_def request_opt_def within_target_def targetSize_opt_def
      empty_world_def numeral_2_eq_2 numeral_3_eq_3 All_less_Suc)

text \<open>
  C2, as amended. In both transcoders a buffer is returned exactly when some ladder entry
  passes the size check or the codec invocation for the last ladder entry produces a
  buffer; in every other case the call raises. An invocation that succeeds with an
  oversized buffer for an entry other than the last does not prevent the raise.
  What is raised: \<open>adaptiveVideoToWebp\<close> raises its own conversion failure, "Failed to
  convert video with any quality settings", and nothing else; \<open>videoToGif\<close> rethrows the
  error of the codec invocation for its last ladder entry, and raises the conversion
  failure only for an empty ladder.
\<close>

theorem returns_iff_fit_or_last_succeeds:
  "((\<exists>b. fst (adaptiveVideoToWebp_with ladder cdc filename data targetSize w) = Inr b) \<longleftrightarrow>
      (\<exists>k<length ladder. within_target targetSize (cdc data (request (ladder ! k))))
      \<or> (ladder \<noteq> [] \<and> (\<exists>b. cdc data (request (last ladder)) = Inr b)))
   \<and> ((\<exists>e. fst (adaptiveVideoToWebp_with ladder cdc filename data targetSize w) = Inl e) \<longleftrightarrow>
      \<not> ((\<exists>k<length ladder. within_target targetSize (cdc data (request (ladder ! k))))
         \<or> (ladder \<noteq> [] \<and> (\<exists>b. cdc data (request (last ladder)) = Inr b))))
   \<and> (fst (adaptiveVideoToWebp_with ladder cdc filename data targetSize w)
         = Inl (Error (js ''Failed to convert video with any quality settings'')) \<longleftrightarrow>
      \<not> ((\<exists>k<length ladder. within_target targetSize (cdc data (request (ladder ! k))))
         \<or> (ladder \<noteq> [] \<and> (\<exists>b. cdc data (request (last ladder)) = Inr b))))
   \<and> ((\<exists>b. fst (videoToGif_with ladder_opt cdc filename data w) = Inr b) \<longleftrightarrow>
      (\<exists>k<length ladder_opt.
          within_target targetSize_opt (cdc data (request_opt k (ladder_opt ! k))))
      \<or> (ladder_opt \<noteq> []
         \<and> (\<exists>b. cdc data (request_opt (length ladder_opt - 1) (last ladder_opt)) = Inr b)))
   \<and> ((\<exists>e. fst (videoToGif_with ladder_opt cdc filename data w) = Inl e) \<longleftrightarrow>
      \<not> ((\<exists>k<length ladder_opt.
             within_target targetSize_opt (cdc data (request_opt k (ladder_opt ! k))))
         \<or> (ladder_opt \<noteq> []
            \<and> (\<exists>b. cdc data (request_opt (length ladder_opt - 1) (last ladder_opt)) = Inr b))))
   \<and> (ladder_opt \<noteq> []
        \<and> \<not> (\<exists>k<length ladder_opt.
                 within_target targetSize_opt (cdc data (request_opt k (ladder_opt ! k))))
        \<and> cdc data (request_opt (length ladder_opt - 1) (last ladder_opt)) = Inl e
      \<longrightarrow> fst (videoToGif_with ladder_opt cdc filename data w) = Inl e)
   \<and> (ladder_opt = []
      \<longrightarrow> fst (videoToGif_with ladder_opt cdc filename data w)
            = Inl (Error (js ''Failed to convert video with any quality settings'')))"
proof -
  have sum_cases: "\<And>x :: js_error + buffer. (\<exists>e. x = Inl e) \<longleftrightarrow> \<not> (\<exists>b. x = Inr b)"
    by (case_tac x) auto
  let ?R = "(\<exists>k<length ladder. within_target targetSize (cdc data (request (ladder ! k))))
      \<or> (ladder \<noteq> [] \<and> (\<exists>b. cdc data (request (last ladder)) = Inr b))"
  let ?x = "fst (adaptiveVideoToWebp_with ladder cdc filename data targetSize w)"
  have ret: "(\<exists>b. ?x = Inr b) \<longleftrightarrow> ?R"
    by (rule adaptive_returns_iff)
  have which: "?x = Inl (Error (js ''Failed to convert video with any quality settings''))
                 \<longleftrightarrow> \<not> ?R"
  proof
    assume "?x = Inl (Error (js ''Failed to convert video with any quality settings''))"
    then have "\<not> (\<exists>b. ?x = Inr b)" by simp
    with ret show "\<not> ?R" by blast
  next
    assume n: "\<not> ?R"
    then have nf: "\<forall>j<length ladder.
                     \<not> within_target targetSize (cdc data (request (ladder ! j)))"
      by blast
    show "?x = Inl (Error (js ''Failed to convert video with any quality settings''))"
      unfolding adaptive_no_fit(1)[where cdc=cdc and data=data, OF nf] using n
      by (auto split: sum.splits)
  qed
  have last_err: "fst (videoToGif_with ladder_opt cdc filename data w) = Inl e"
    if "ladder_opt \<noteq> []"
      "\<not> (\<exists>k<length ladder_opt.
                 within_target targetSize_opt (cdc data (request_opt k (ladder_opt ! k))))"
      "cdc data (request_opt (length ladder_opt - 1) (last ladder_opt)) = Inl e"
  proof -
    from that(2) have nf: "\<forall>j<length ladder_opt.
        \<not> within_target targetSize_opt (cdc data (request_opt j (ladder_opt ! j)))"
      by blast
    show ?thesis
      unfolding videoToGif_no_fit(1)[where cdc=cdc and data=data, OF nf] using that(1,3)
      by simp
  qed
  have empty: "fst (videoToGif_with ladder_opt cdc filename data w)
            = Inl (Error (js ''Failed to convert video with any quality settings''))"
    if "ladder_opt = []"
  proof -
    from that have nf: "\<forall>j<length ladder_opt.
        \<not> within_target targetSize_opt (cdc data (request_opt j (ladder_opt ! j)))"
      by simp
    show ?thesis
      unfolding videoToGif_no_fit(1)[where cdc=cdc and data=data, OF nf] using that by simp
  qed
  show ?thesis
    unfolding sum_cases
    using ret which last_err empty
      videoToGif_returns_iff[of ladder_opt cdc filename data w]
    by blast
qed

text \<open>
  Witness for C2 as amended. With a codec whose every output is 600 KiB no entry passes
  the check, the last entry produces a buffer, and both transcoders return. With a codec
  that always fails \<open>adaptiveVideoToWebp\<close> raises its conversion failure and
  \<open>videoToGif\<close> the error of the codec; on an empty ladder \<open>videoToGif\<close> raises the
  conversion failure.
\<close>

theorem returns_iff_fit_or_last_succeeds_witness:
  "(\<exists>b. fst (adaptiveVideoToWebp codec_oversized sample_filename sample_data (500 * 1024)
              empty_world) = Inr b)
   \<and> (\<exists>b. fst (videoToGif codec_oversized sample_filename sample_data empty_world) = Inr b)
   \<and> fst (adaptiveVideoToWebp codec_failing sample_filename sample_data (500 * 1024)
             empty_world)
       = Inl (Error (js ''Failed to convert video with any quality settings''))
   \<and> fst (videoToGif codec_failing sample_filename sample_data empty_world)
       = Inl (Error (js ''Invalid data found when processing input''))
   \<and> fst (videoToGif_with [] codec_failing sample_filename sample_data empty_world)
       = Inl (Error (js ''Failed to convert video with any quality settings''))"
  using returns_iff_fit_or_last_succeeds[where ladder=qualityLevels and cdc=codec_oversized
      and filename=sample_filename and data=sample_data and targetSize="500 * 1024"
      and w=empty_world and ladder_opt=qualityLevels_opt]
    returns_iff_fit_or_last_succeeds[where ladder=qualityLevels and cdc=codec_failing
      and filename=sample_filename and data=sample_data and targetSize="500 * 1024"
      and w=empty_world and ladder_opt=qualityLevels_opt
      and e="Error (js ''Invalid data found when processing input'')"]
    returns_iff_fit_or_last_succeeds[where ladder=qualityLevels and cdc=codec_failing
      and filename=sample_filename and data=sample_data and targetSize="500 * 1024"
      and w=empty_world and ladder_opt="[]"]
  by (simp add: adaptiveVideoToWebp_def videoToGif_def qualityLevels_def qualityLevels_opt_def
      codec_oversized_def codec_failing_def within_target_def)

text \<open>
  Counterexample to C2 as stated: the codec gives a 600 KiB buffer at quality 50 and
  above and fails below. A codec invocation succeeds in each transcoder (the first
  entry), and yet \<open>adaptiveVideoToWebp\<close> raises its conversion failure and
  \<open>videoToGif\<close> rethrows the codec error of its last entry.
\<close>

theorem exhaustion_counterexample:
  "codec_oversized_then_failing sample_data (request (qualityLevels ! 0))
       = Inr (replicate (600 * 1024) 0)
   \<and> fst (adaptiveVideoToWebp codec_oversized_then_failing sample_filename sample_data
             (500 * 1024) empty_world)
       = Inl (Error (js ''Failed to convert video with any quality settings''))
   \<and> codec_oversized_then_failing sample_data (request_opt 0 (qualityLevels_opt ! 0))
       = Inr (replicate (600 * 1024) 0)
   \<and> fst (videoToGif codec_oversized_then_failing sample_filename sample_data empty_world)
       = Inl (Error (js ''Conversion failed''))"
proof -
  have nf: "\<forall>j<length qualityLevels. \<not> within_target (500 * 1024)
      (codec_oversized_then_failing sample_data (request (qualityLevels ! j)))"
    by (simp add: within_target_def codec_oversized_then_failing_def)
  have nf_opt: "\<forall>j<length qualityLevels_opt. \<not> within_target targetSize_opt
      (codec_oversized_then_failing sample_data (request_opt j (qualityLevels_opt ! j)))"
    by (simp add: within_target_def codec_oversized_then_failing_def targetSize_opt_def)
  show ?thesis
    unfolding adaptiveVideoToWebp_def videoToGif_def
      adaptive_no_fit(1)[where cdc=codec_oversized_then_failing and data=sample_data, OF nf]
      videoToGif_no_fit(1)[where cdc=codec_oversized_then_failing and data=sample_data,
        OF nf_opt]
    by (simp add: qualityLevels_def qualityLevels_opt_def codec_oversized_then_failing_def
        request_def request_opt_def)
qed

text \<open>
  C3, as amended. In both transcoders, when no ladder entry passes the size check and the
  codec invocation for the last ladder entry produces a buffer, the call returns that
  buffer after trying every entry; the buffer is larger than the target. The functions
  return the bare buffer: whether it is within the target is read off its length.
  (When the last entry fails, earlier oversized buffers are not kept: see C2.)
\<close>

theorem oversized_fallback_of_last_entry:
  "(ladder \<noteq> []
      \<and> (\<forall>j<length ladder. \<not> within_target targetSize (cdc data (request (ladder ! j))))
      \<and> cdc data (request (last ladder)) = Inr buf
    \<longrightarrow> fst (adaptiveVideoToWebp_with ladder cdc filename data targetSize w) = Inr buf
      \<and> targetSize < length buf
      \<and> invoked (snd (adaptiveVideoToWebp_with ladder cdc filename data targetSize w))
          = invoked w @ map request ladder)
   \<and> (ladder_opt \<noteq> []
      \<and> (\<forall>j<length ladder_opt. \<not> within_target targetSize_opt
                                    (cdc data (request_opt j (ladder_opt ! j))))
      \<and> cdc data (request_opt (length ladder_opt - 1) (last ladder_opt)) = Inr buf_opt
    \<longrightarrow> fst (videoToGif_with ladder_opt cdc filename data w) = Inr buf_opt
      \<and> targetSize_opt < length buf_opt
      \<and> invoked (snd (videoToGif_with ladder_opt cdc filename data w))
          = invoked w @ map (\<lambda>j. request_opt j (ladder_opt ! j)) [0..<length ladder_opt])"
proof (intro conjI impI; elim conjE)
  assume ne: "ladder \<noteq> []"
    and nf: "\<forall>j<length ladder. \<not> within_target targetSize (cdc data (request (ladder ! j)))"
    and ok: "cdc data (request (last ladder)) = Inr buf"
  show "fst (adaptiveVideoToWebp_with ladder cdc filename data targetSize w) = Inr buf"
    unfolding adaptive_no_fit(1)[where cdc=cdc and data=data, OF nf] using ne ok by simp
  from ne have "length ladder - 1 < length ladder" by (cases ladder) auto
  with nf have "\<not> within_target targetSize (cdc data (request (ladder ! (length ladder - 1))))"
    by blast
  with ne ok show "targetSize < length buf"
    by (simp add: last_conv_nth within_target_def)
  show "invoked (snd (adaptiveVideoToWebp_with ladder cdc filename data targetSize w))
          = invoked w @ map request ladder"
    by (rule adaptive_no_fit(2)[where cdc=cdc and data=data, OF nf])
next
  assume ne: "ladder_opt \<noteq> []"
    and nf: "\<forall>j<length ladder_opt. \<not> within_target targetSize_opt
                                    (cdc data (request_opt j (ladder_opt ! j)))"
    and ok: "cdc data (request_opt (length ladder_opt - 1) (last ladder_opt)) = Inr buf_opt"
  show "fst (videoToGif_with ladder_opt cdc filename data w) = Inr buf_opt"
    unfolding videoToGif_no_fit(1)[where cdc=cdc and data=data, OF nf] using ne ok by simp
  from ne have "length ladder_opt - 1 < length ladder_opt" by (cases ladder_opt) auto
  with nf have "\<not> within_target targetSize_opt
      (cdc data (request_opt (length ladder_opt - 1) (ladder_opt ! (length ladder_opt - 1))))"
    by blast
  with ne ok show "targetSize_opt < length buf_opt"
    by (simp add: last_conv_nth within_target_def)
  show "invoked (snd (videoToGif_with ladder_opt cdc filename data w))
          = invoked w @ map (\<lambda>j. request_opt j (ladder_opt ! j)) [0..<length ladder_opt]"
    by (rule videoToGif_no_fit(2)[where cdc=cdc and data=data, OF nf])
qed

text \<open>
  Witness for C3 as amended: every output is 600 KiB, the target is 500 KiB. Both
  transcoders return the 600 KiB buffer of their last entry after trying all entries.
\<close>

theorem oversized_fallback_of_last_entry_witness:
  "fst (adaptiveVideoToWebp codec_oversized sample_filename sample_data (500 * 1024) empty_world)
      = Inr (replicate (600 * 1024) 0)
   \<and> invoked (snd (adaptiveVideoToWebp codec_oversized sample_filename sample_data
                      (500 * 1024) empty_world)) = map request qualityLevels
   \<and> fst (videoToGif codec_oversized sample_filename sample_data empty_world)
      = Inr (replicate (600 * 1024) 0)
   \<and> length (invoked (snd (videoToGif codec_oversized sample_filename sample_data empty_world)))
      = 4"
  using oversized_fallback_of_last_entry[where ladder=qualityLevels and cdc=codec_oversized
      and filename=sample_filename and data=sample_data and targetSize="500 * 1024"
      and w=empty_world and ladder_opt=qualityLevels_opt
      and buf="replicate (600 * 1024) 0" and buf_opt="replicate (600 * 1024) 0"]
  by (simp add: adaptiveVideoToWebp_def videoToGif_def qualityLevels_def qualityLevels_opt_def
      codec_oversized_def within_target_def targetSize_opt_def empty_world_def)

text \<open>
  Counterexample to C3 as stated: the codec gives a 600 KiB buffer at quality 50 and
  above and fails below, the target is 500 KiB. In \<open>adaptiveVideoToWebp\<close> the entries of
  quality 60 and 50 produce a buffer, none is within the target, the last entry to
  produce output is the second, and the call raises instead of returning its buffer.
  In \<open>videoToGif\<close> the first entry alone produces a buffer, and the call raises.
\<close>

theorem oversized_fallback_counterexample:
  "map (codec_oversized_then_failing sample_data \<circ> request) qualityLevels
       = [Inr (replicate (600 * 1024) 0), Inr (replicate (600 * 1024) 0),
          Inl (Error (js ''Conversion failed'')), Inl (Error (js ''Conversion failed'')),
          Inl (Error (js ''Conversion failed''))]
   \<and> \<not> length (replicate (600 * 1024) (0 :: 8 word)) \<le> 500 * 1024
   \<and> fst (adaptiveVideoToWebp codec_oversized_then_failing sample_filename sample_data
             (500 * 1024) empty_world)
       = Inl (Error (js ''Failed to convert video with any quality settings''))
   \<and> map (codec_oversized_then_failing sample_data)
         [request_opt 0 (qualityLevels_opt ! 0), request_opt 1 (qualityLevels_opt ! 1),
          request_opt 2 (qualityLevels_opt ! 2), request_opt 3 (qualityLevels_opt ! 3)]
       = [Inr (replicate (600 * 1024) 0), Inl (Error (js ''Conversion failed'')),
          Inl (Error (js ''Conversion failed'')), Inl (Error (js ''Conversion failed''))]
   \<and> fst (videoToGif codec_oversized_then_failing sample_filename sample_data empty_world)
       = Inl (Error (js ''Conversion failed''))"
proof -
  have nf: "\<forall>j<length qualityLevels. \<not> within_target (500 * 1024)
      (codec_oversized_then_failing sample_data (request (qualityLevels ! j)))"
    by (simp add: within_target_def codec_oversized_then_failing_def)
  have nf_opt: "\<forall>j<length qualityLevels_opt. \<not> within_target targetSize_opt
      (codec_oversized_then_failing sample_data (request_opt j (qualityLevels_opt ! j)))"
    by (simp add: within_target_def codec_oversized_then_failing_def targetSize_opt_def)
  show ?thesis
    unfolding adaptiveVideoToWebp_def videoToGif_def
      adaptive_no_fit(1)[where cdc=codec_oversized_then_failing and data=sample_data, OF nf]
      videoToGif_no_fit(1)[where cdc=codec_oversized_then_failing and data=sample_data,
        OF nf_opt]
    by (simp add: qualityLevels_def qualityLevels_opt_def codec_oversized_then_failing_def
        request_def request_opt_def)
qed

subsection \<open>Claim about the temporary files\<close>

text \<open>
  C9. Temporary-file cleanup on every exit path fails in \<open>videoToGif\<close>: when every codec
  invocation fails, the \<open>catch\<close> of the last attempt rethrows from inside the loop, the
  removal of the input file after the loop is not reached, and the file written for the
  input is still in the temporary directory when the call raises. On the same input
  \<open>adaptiveVideoToWebp\<close>, whose \<open>catch\<close> always continues, raises with the input file
  removed.
\<close>

theorem videoToGif_leaves_input_file:
  "fst (videoToGif codec_failing sample_filename sample_data empty_world)
       = Inl (Error (js ''Invalid data found when processing input''))
   \<and> files (snd (videoToGif codec_failing sample_filename sample_data empty_world))
         (video_path sample_filename) = Some sample_data
   \<and> fst (adaptiveVideoToWebp codec_failing sample_filename sample_data (500 * 1024) empty_world)
       = Inl (Error (js ''Failed to convert video with any quality settings''))
   \<and> files (snd (adaptiveVideoToWebp codec_failing sample_filename sample_data (500 * 1024)
                    empty_world))
         (video_path sample_filename) = None"
proof -
  have nf: "\<forall>j<length qualityLevels. \<not> within_target (500 * 1024)
      (codec_failing sample_data (request (qualityLevels ! j)))"
    by (simp add: within_target_def codec_failing_def)
  have nf_opt: "\<forall>j<length qualityLevels_opt. \<not> within_target targetSize_opt
      (codec_failing sample_data (request_opt j (qualityLevels_opt ! j)))"
    by (simp add: within_target_def codec_failing_def)
  have ne: "qualityLevels_opt \<noteq> []" by (simp add: qualityLevels_opt_def)
  have last_fails: "codec_failing sample_data
      (request_opt (length qualityLevels_opt - 1) (last qualityLevels_opt))
        = Inl (Error (js ''Invalid data found when processing input''))"
    by (simp add: codec_failing_def)
  show ?thesis
    unfolding adaptiveVideoToWebp_def videoToGif_def
      adaptive_no_fit(1)[where cdc=codec_failing and data=sample_data, OF nf]
      videoToGif_no_fit(1)[where cdc=codec_failing and data=sample_data, OF nf_opt]
      videoToGif_no_fit(3)[where cdc=codec_failing and data=sample_data,
        OF nf_opt ne last_fails]
      adaptive_files
    by (simp add: qualityLevels_def qualityLevels_opt_def codec_failing_def)
qed

section \<open>Properties of the validator\<close>

subsection \<open>What each check does to the result\<close>

lemma validateFileSize_simps:
  "errors (validateFileSize buffer a r) =
     errors r @ (if length buffer \<le> size_limit a then []
                 else [file_size_error (length buffer) (size_limit a) a])"
  "warnings (validateFileSize buffer a r) =
     warnings r @ (if RECOMMENDED_FILE_SIZE * 3 < length buffer
                   then [file_size_warning (length buffer)] else [])"
  "fileSize (validateFileSize buffer a r) =
     (fileSize r)\<lparr>fs_size := length buffer, fs_limit := size_limit a,
                  fs_isValid := length buffer \<le> size_limit a\<rparr>"
  "dimensions (validateFileSize buffer a r) = dimensions r"
  "metadata (validateFileSize buffer a r) = metadata r"
  by (simp_all add: validateFileSize_def size_limit_def Let_def)

lemma validateDimensions_simps:
  "errors (validateDimensions l buffer r) =
     errors r @
     (case sharp_metadata l buffer of
        Inl e \<Rightarrow> [dimensions_failure e]
      | Inr sm \<Rightarrow>
          if or_zero (sm_width sm) = STICKER_SIZE \<and> or_zero (sm_height sm) = STICKER_SIZE
          then []
          else [dimensions_error (or_zero (sm_width sm)) (or_zero (sm_height sm))])"
  "warnings (validateDimensions l buffer r) = warnings r"
  "dimensions (validateDimensions l buffer r) =
     (case sharp_metadata l buffer of
        Inl e \<Rightarrow> (dimensions r)\<lparr>dim_isValid := False\<rparr>
      | Inr sm \<Rightarrow>
          (dimensions r)\<lparr>dim_width := or_zero (sm_width sm),
             dim_height := or_zero (sm_height sm),
             dim_isValid := (or_zero (sm_width sm) = STICKER_SIZE
                             \<and> or_zero (sm_height sm) = STICKER_SIZE)\<rparr>)"
  "fileSize (validateDimensions l buffer r) = fileSize r"
  "metadata (validateDimensions l buffer r) = metadata r"
  by (simp_all add: validateDimensions_def Let_def split: sum.splits)

lemma validateMetadata_pack_simps:
  "errors (validateMetadata_pack m r) =
     errors r @ (if PACK_NAME_MAX_LENGTH < length (or_empty (so_pack m))
                 then [pack_error] else [])"
  "warnings (validateMetadata_pack m r) = warnings r"
  "fileSize (validateMetadata_pack m r) = fileSize r"
  "dimensions (validateMetadata_pack m r) = dimensions r"
  "md_pack (metadata (validateMetadata_pack m r)) =
     (md_pack (metadata r))\<lparr>txt_value := or_empty (so_pack m),
        txt_isValid := (txt_isValid (md_pack (metadata r))
                        \<and> \<not> PACK_NAME_MAX_LENGTH < length (or_empty (so_pack m)))\<rparr>"
  "md_author (metadata (validateMetadata_pack m r)) = md_author (metadata r)"
  "md_id (metadata (validateMetadata_pack m r)) = md_id (metadata r)"
  "md_categories (metadata (validateMetadata_pack m r)) = md_categories (metadata r)"
  by (simp_all add: validateMetadata_pack_def Let_def)

lemma validateMetadata_author_simps:
  "errors (validateMetadata_author m r) =
     errors r @ (if AUTHOR_MAX_LENGTH < length (or_empty (so_author m))
                 then [author_error] else [])"
  "warnings (validateMetadata_author m r) = warnings r"
  "fileSize (validateMetadata_author m r) = fileSize r"
  "dimensions (validateMetadata_author m r) = dimensions r"
  "md_author (metadata (validateMetadata_author m r)) =
     (md_author (metadata r))\<lparr>txt_value := or_empty (so_author m),
        txt_isValid := (txt_isValid (md_author (metadata r))
                        \<and> \<not> AUTHOR_MAX_LENGTH < length (or_empty (so_author m)))\<rparr>"
  "md_pack (metadata (validateMetadata_author m r)) = md_pack (metadata r)"
  "md_id (metadata (validateMetadata_author m r)) = md_id (metadata r)"
  "md_categories (metadata (validateMetadata_author m r)) = md_categories (metadata r)"
  by (simp_all add: validateMetadata_author_def Let_def)

lemma validateMetadata_id_simps:
  "errors (validateMetadata_id m r) =
     errors r
     @ (if ID_MAX_LENGTH < length (or_empty (so_id m)) then [id_length_error] else [])
     @ (if or_empty (so_id m) \<noteq> [] \<and> \<not> id_regex_test (or_empty (so_id m))
        then [id_charset_error] else [])"
  "warnings (validateMetadata_id m r) = warnings r"
  "fileSize (validateMetadata_id m r) = fileSize r"
  "dimensions (validateMetadata_id m r) = dimensions r"
  "md_id (metadata (validateMetadata_id m r)) =
     (md_id (metadata r))\<lparr>txt_value := or_empty (so_id m),
        txt_isValid := (txt_isValid (md_id (metadata r))
                        \<and> \<not> ID_MAX_LENGTH < length (or_empty (so_id m))
                        \<and> (or_empty (so_id m) = [] \<or> id_regex_test (or_empty (so_id m))))\<rparr>"
  "md_pack (metadata (validateMetadata_id m r)) = md_pack (metadata r)"
  "md_author (metadata (validateMetadata_id m r)) = md_author (metadata r)"
  "md_categories (metadata (validateMetadata_id m r)) = md_categories (metadata r)"
  by (simp_all add: validateMetadata_id_def Let_def)

lemma validateMetadata_categories_simps:
  "errors (validateMetadata_categories m r) =
     errors r
     @ (if MAX_CATEGORIES_PER_STICKER < length (or_empty (so_categories m))
        then [too_many_categories_error (length (or_empty (so_categories m)))] else [])"
  "warnings (validateMetadata_categories m r) =
     warnings r @ (if or_empty (so_categories m) = [] then [no_categories_warning] else [])"
  "fileSize (validateMetadata_categories m r) = fileSize r"
  "dimensions (validateMetadata_categories m r) = dimensions r"
  "md_categories (metadata (validateMetadata_categories m r)) =
     (md_categories (metadata r))\<lparr>cat_value := or_empty (so_categories m),
        cat_count := length (or_empty (so_categories m)),
        cat_isValid := (cat_isValid (md_categories (metadata r))
                        \<and> \<not> MAX_CATEGORIES_PER_STICKER
                              < length (or_empty (so_categories m)))\<rparr>"
  "md_pack (metadata (validateMetadata_categories m r)) = md_pack (metadata r)"
  "md_author (metadata (validateMetadata_categories m r)) = md_author (metadata r)"
  "md_id (metadata (validateMetadata_categories m r)) = md_id (metadata r)"
  by (simp_all add: validateMetadata_categories_def Let_def)

lemmas validateMetadata_block_simps =
  validateMetadata_pack_simps validateMetadata_author_simps
  validateMetadata_id_simps validateMetadata_categories_simps

lemma validateMetadata_simps:
  "errors (validateMetadata m r) =
     errors r
     @ (if PACK_NAME_MAX_LENGTH < length (or_empty (so_pack m)) then [pack_error] else [])
     @ (if AUTHOR_MAX_LENGTH < length (or_empty (so_author m)) then [author_error] else [])
     @ (if ID_MAX_LENGTH < length (or_empty (so_id m)) then [id_length_error] else [])
     @ (if or_empty (so_id m) \<noteq> [] \<and> \<not> id_regex_test (or_empty (so_id m))
        then [id_charset_error] else [])
     @ (if MAX_CATEGORIES_PER_STICKER < length (or_empty (so_categories m))
        then [too_many_categories_error (length (or_empty (so_categories m)))] else [])"
  "warnings (validateMetadata m r) =
     warnings r @ (if or_empty (so_categories m) = [] then [no_categories_warning] else [])
       @ [stroke_warning]"
  "fileSize (validateMetadata m r) = fileSize r"
  "dimensions (validateMetadata m r) = dimensions r"
  "md_pack (metadata (validateMetadata m r)) =
     (md_pack (metadata r))\<lparr>txt_value := or_empty (so_pack m),
        txt_isValid := (txt_isValid (md_pack (metadata r))
                        \<and> \<not> PACK_NAME_MAX_LENGTH < length (or_empty (so_pack m)))\<rparr>"
  "md_author (metadata (validateMetadata m r)) =
     (md_author (metadata r))\<lparr>txt_value := or_empty (so_author m),
        txt_isValid := (txt_isValid (md_author (metadata r))
                        \<and> \<not> AUTHOR_MAX_LENGTH < length (or_empty (so_author m)))\<rparr>"
  "md_id (metadata (validateMetadata m r)) =
     (md_id (metadata r))\<lparr>txt_value := or_empty (so_id m),
        txt_isValid := (txt_isValid (md_id (metadata r))
                        \<and> \<not> ID_MAX_LENGTH < length (or_empty (so_id m))
                        \<and> (or_empty (so_id m) = [] \<or> id_regex_test (or_empty (so_id m))))\<rparr>"
  "md_categories (metadata (validateMetadata m r)) =
     (md_categories (metadata r))\<lparr>cat_value := or_empty (so_categories m),
        cat_count := length (or_empty (so_categories m)),
        cat_isValid := (cat_isValid (md_categories (metadata r))
                        \<and> \<not> MAX_CATEGORIES_PER_STICKER
                              < length (or_empty (so_categories m)))\<rparr>"
  unfolding validateMetadata_def Let_def
  by (simp_all add: validateMetadata_block_simps)

lemma validateAnimatedSticker_simps:
  "errors (validateAnimatedSticker l buffer r) = errors r"
  "fileSize (validateAnimatedSticker l buffer r) = fileSize r"
  "dimensions (validateAnimatedSticker l buffer r) = dimensions r"
  "metadata (validateAnimatedSticker l buffer r) = metadata r"
  by (simp_all add: validateAnimatedSticker_def Let_def split: sum.splits option.splits)

lemma validateAnimatedSticker_warnings:
  "set (warnings r) \<subseteq> set (warnings (validateAnimatedSticker l buffer r))"
  by (auto simp: validateAnimatedSticker_def Let_def split: sum.splits option.splits)

subsection \<open>The report of \<open>validateSticker\<close>\<close>

text \<open>The \<open>try\<close> block always returns: \<open>validateSticker\<close> is its five steps in a row.\<close>

lemma validateSticker_unfold:
  "validateSticker l buffer m =
     (let a = isAnimatedSticker l buffer;
          r1 = validateMetadata m (validateDimensions l buffer (validateFileSize buffer a
                 (initial_result\<lparr>fileSize :=
                    (fileSize initial_result)\<lparr>fs_type := (if a then Animated else Static)\<rparr>\<rparr>)));
          r2 = (if a then validateAnimatedSticker l buffer r1 else r1)
      in r2\<lparr>isValid := (errors r2 = [])\<rparr>)"
  by (simp add: validateSticker_def validateSticker_try_def Let_def)

lemma validateSticker_errors:
  "errors (validateSticker l buffer m) =
     (if length buffer \<le> size_limit (isAnimatedSticker l buffer) then []
      else [file_size_error (length buffer) (size_limit (isAnimatedSticker l buffer))
              (isAnimatedSticker l buffer)])
     @ (case sharp_metadata l buffer of
          Inl e \<Rightarrow> [dimensions_failure e]
        | Inr sm \<Rightarrow>
            if or_zero (sm_width sm) = STICKER_SIZE \<and> or_zero (sm_height sm) = STICKER_SIZE
            then []
            else [dimensions_error (or_zero (sm_width sm)) (or_zero (sm_height sm))])
     @ (if PACK_NAME_MAX_LENGTH < length (or_empty (so_pack m)) then [pack_error] else [])
     @ (if AUTHOR_MAX_LENGTH < length (or_empty (so_author m)) then [author_error] else [])
     @ (if ID_MAX_LENGTH < length (or_empty (so_id m)) then [id_length_error] else [])
     @ (if or_empty (so_id m) \<noteq> [] \<and> \<not> id_regex_test (or_empty (so_id m))
        then [id_charset_error] else [])
     @ (if MAX_CATEGORIES_PER_STICKER < length (or_empty (so_categories m))
        then [too_many_categories_error (length (or_empty (so_categories m)))] else [])"
  unfolding validateSticker_unfold Let_def
  by (simp add: validateAnimatedSticker_simps validateMetadata_simps validateDimensions_simps
      validateFileSize_simps initial_result_def)

lemma validateSticker_isValid:
  "isValid (validateSticker l buffer m) \<longleftrightarrow> errors (validateSticker l buffer m) = []"
  unfolding validateSticker_unfold Let_def by simp

lemma validateSticker_fileSize:
  "fileSize (validateSticker l buffer m) =
     \<lparr>fs_size = length buffer,
      fs_isValid = (length buffer \<le> size_limit (isAnimatedSticker l buffer)),
      fs_limit = size_limit (isAnimatedSticker l buffer),
      fs_type = (if isAnimatedSticker l buffer then Animated else Static)\<rparr>"
  unfolding validateSticker_unfold Let_def
  by (simp add: validateAnimatedSticker_simps validateMetadata_simps validateDimensions_simps
      validateFileSize_simps initial_result_def)

lemma validateSticker_dimensions:
  "dimensions (validateSticker l buffer m) =
     (case sharp_metadata l buffer of
        Inl e \<Rightarrow> \<lparr>dim_width = 0, dim_height = 0, dim_isValid = False\<rparr>
      | Inr sm \<Rightarrow>
          \<lparr>dim_width = or_zero (sm_width sm), dim_height = or_zero (sm_height sm),
           dim_isValid = (or_zero (sm_width sm) = STICKER_SIZE
                          \<and> or_zero (sm_height sm) = STICKER_SIZE)\<rparr>)"
  unfolding validateSticker_unfold Let_def
  by (simp add: validateAnimatedSticker_simps validateMetadata_simps validateDimensions_simps
      validateFileSize_simps initial_result_def split: sum.splits)

lemma validateSticker_metadata:
  "md_pack (metadata (validateSticker l buffer m)) =
     \<lparr>txt_value = or_empty (so_pack m),
      txt_isValid = (\<not> PACK_NAME_MAX_LENGTH < length (or_empty (so_pack m))),
      txt_limit = PACK_NAME_MAX_LENGTH\<rparr>"
  "md_author (metadata (validateSticker l buffer m)) =
     \<lparr>txt_value = or_empty (so_author m),
      txt_isValid = (\<not> AUTHOR_MAX_LENGTH < length (or_empty (so_author m))),
      txt_limit = AUTHOR_MAX_LENGTH\<rparr>"
  "md_id (metadata (validateSticker l buffer m)) =
     \<lparr>txt_value = or_empty (so_id m),
      txt_isValid = (\<not> ID_MAX_LENGTH < length (or_empty (so_id m))
                     \<and> (or_empty (so_id m) = [] \<or> id_regex_test (or_empty (so_id m)))),
      txt_limit = ID_MAX_LENGTH\<rparr>"
  "md_categories (metadata (validateSticker l buffer m)) =
     \<lparr>cat_value = or_empty (so_categories m),
      cat_isValid = (\<not> MAX_CATEGORIES_PER_STICKER < length (or_empty (so_categories m))),
      cat_count = length (or_empty (so_categories m)),
      cat_limit = MAX_CATEGORIES_PER_STICKER\<rparr>"
  unfolding validateSticker_unfold Let_def
  by (simp_all add: validateAnimatedSticker_simps validateMetadata_simps
      validateDimensions_simps validateFileSize_simps initial_result_def)

lemma validateSticker_warnings_static:
  assumes "\<not> isAnimatedSticker l buffer"
  shows "warnings (validateSticker l buffer m) =
     (if RECOMMENDED_FILE_SIZE * 3 < length buffer then [file_size_warning (length buffer)]
      else [])
     @ (if or_empty (so_categories m) = [] then [no_categories_warning] else [])
     @ [stroke_warning]"
  unfolding validateSticker_unfold Let_def using assms
  by (simp add: validateMetadata_simps validateDimensions_simps validateFileSize_simps
      initial_result_def)

lemma validateSticker_no_categories_warning:
  assumes "or_empty (so_categories m) = []"
  shows "no_categories_warning \<in> set (warnings (validateSticker l buffer m))"
proof -
  let ?a = "isAnimatedSticker l buffer"
  let ?r1 = "validateMetadata m (validateDimensions l buffer (validateFileSize buffer ?a
                 (initial_result\<lparr>fileSize :=
                    (fileSize initial_result)\<lparr>fs_type := (if ?a then Animated else Static)\<rparr>\<rparr>)))"
  have "no_categories_warning \<in> set (warnings ?r1)"
    using assms by (simp add: validateMetadata_simps)
  moreover have "set (warnings ?r1) \<subseteq> set (warnings (validateAnimatedSticker l buffer ?r1))"
    by (rule validateAnimatedSticker_warnings)
  ultimately show ?thesis
    unfolding validateSticker_unfold Let_def by auto
qed

lemma isAnimatedSticker_iff:
  "isAnimatedSticker l buffer \<longleftrightarrow>
      (\<exists>ft. fromBuffer l buffer = Inr (Some ft) \<and>
         (if ft_mime ft = js ''image/webp''
          then (\<exists>sm p. sharp_metadata l buffer = Inr sm \<and> sm_pages sm = Some p \<and> 1 < p)
          else ft_mime ft = js ''image/gif''))"
  by (auto simp: isAnimatedSticker_def split: sum.splits option.splits)

subsection \<open>The error messages are told apart by how they begin\<close>

lemma message_heads:
  "take 9 (file_size_error s lim a) = js ''File size''"
  "take 9 (dimensions_failure e) = js ''Failed to''"
  "take 9 pack_error = js ''Pack name''"
  "take 9 author_error = js ''Author na''"
  "take 9 (too_many_categories_error n) = js ''Too many ''"
  "take 9 (dimensions_error w h) = js ''Sticker d''"
  "take 9 id_length_error = js ''Sticker I''"
  "take 9 id_charset_error = js ''Sticker I''"
  by (simp_all add: file_size_error_def dimensions_failure_def pack_error_def author_error_def
      too_many_categories_error_def dimensions_error_def id_length_error_def
      id_charset_error_def js_def)

lemma neq_by_take: "take k x \<noteq> take k y \<Longrightarrow> x \<noteq> y"
  by auto

lemma id_errors_distinct:
  "id_charset_error \<noteq> id_length_error"
  by (rule neq_by_take[where k=12])
     (simp add: id_length_error_def id_charset_error_def js_def)

lemma file_size_error_distinct:
  "file_size_error s lim a \<noteq> dimensions_failure e"
  "file_size_error s lim a \<noteq> dimensions_error w h"
  "file_size_error s lim a \<noteq> pack_error" "file_size_error s lim a \<noteq> author_error"
  "file_size_error s lim a \<noteq> id_length_error" "file_size_error s lim a \<noteq> id_charset_error"
  "file_size_error s lim a \<noteq> too_many_categories_error n"
  by (rule neq_by_take[where k=9], simp add: message_heads js_def)+

lemma dimensions_failure_distinct:
  "dimensions_failure e \<noteq> file_size_error s lim a"
  "dimensions_failure e \<noteq> dimensions_error w h"
  "dimensions_failure e \<noteq> pack_error" "dimensions_failure e \<noteq> author_error"
  "dimensions_failure e \<noteq> id_length_error" "dimensions_failure e \<noteq> id_charset_error"
  "dimensions_failure e \<noteq> too_many_categories_error n"
  by (rule neq_by_take[where k=9], simp add: message_heads js_def)+

lemma dimensions_error_distinct:
  "dimensions_error w h \<noteq> file_size_error s lim a"
  "dimensions_error w h \<noteq> dimensions_failure e"
  "dimensions_error w h \<noteq> pack_error" "dimensions_error w h \<noteq> author_error"
  "dimensions_error w h \<noteq> too_many_categories_error n"
  "dimensions_error w h \<noteq> id_length_error" "dimensions_error w h \<noteq> id_charset_error"
  by (rule neq_by_take[where k=9], simp add: message_heads js_def)+

lemma pack_error_distinct:
  "pack_error \<noteq> file_size_error s lim a" "pack_error \<noteq> dimensions_failure e"
  "pack_error \<noteq> dimensions_error w h" "pack_error \<noteq> author_error"
  "pack_error \<noteq> id_length_error" "pack_error \<noteq> id_charset_error"
  "pack_error \<noteq> too_many_categories_error n"
  by (rule neq_by_take[where k=9], simp add: message_heads js_def)+

lemma id_charset_error_distinct:
  "id_charset_error \<noteq> file_size_error s lim a" "id_charset_error \<noteq> dimensions_failure e"
  "id_charset_error \<noteq> pack_error" "id_charset_error \<noteq> author_error"
  "id_charset_error \<noteq> too_many_categories_error n"
  "id_charset_error \<noteq> dimensions_error w h"
  by (rule neq_by_take[where k=9], simp add: message_heads js_def)+

lemma too_many_categories_error_distinct:
  "too_many_categories_error n \<noteq> file_size_error s lim a"
  "too_many_categories_error n \<noteq> dimensions_failure e"
  "too_many_categories_error n \<noteq> dimensions_error w h"
  "too_many_categories_error n \<noteq> pack_error" "too_many_categories_error n \<noteq> author_error"
  "too_many_categories_error n \<noteq> id_length_error"
  "too_many_categories_error n \<noteq> id_charset_error"
  by (rule neq_by_take[where k=9], simp add: message_heads js_def)+

subsection \<open>Which errors a report holds\<close>

lemma validateSticker_error_set:
  "set (errors (validateSticker l buffer m)) =
     (if length buffer \<le> size_limit (isAnimatedSticker l buffer) then {}
      else {file_size_error (length buffer) (size_limit (isAnimatedSticker l buffer))
              (isAnimatedSticker l buffer)})
     \<union> (case sharp_metadata l buffer of
          Inl e \<Rightarrow> {dimensions_failure e}
        | Inr sm \<Rightarrow>
            if or_zero (sm_width sm) = STICKER_SIZE \<and> or_zero (sm_height sm) = STICKER_SIZE
            then {}
            else {dimensions_error (or_zero (sm_width sm)) (or_zero (sm_height sm))})
     \<union> (if PACK_NAME_MAX_LENGTH < length (or_empty (so_pack m)) then {pack_error} else {})
     \<union> (if AUTHOR_MAX_LENGTH < length (or_empty (so_author m)) then {author_error} else {})
     \<union> (if ID_MAX_LENGTH < length (or_empty (so_id m)) then {id_length_error} else {})
     \<union> (if or_empty (so_id m) \<noteq> [] \<and> \<not> id_regex_test (or_empty (so_id m))
        then {id_charset_error} else {})
     \<union> (if MAX_CATEGORIES_PER_STICKER < length (or_empty (so_categories m))
        then {too_many_categories_error (length (or_empty (so_categories m)))} else {})"
  unfolding validateSticker_errors by (simp split: sum.splits)

lemma file_size_error_in_errors:
  "file_size_error s lim a \<in> set (errors (validateSticker l buffer m)) \<longleftrightarrow>
     \<not> length buffer \<le> size_limit (isAnimatedSticker l buffer)
     \<and> file_size_error s lim a
         = file_size_error (length buffer) (size_limit (isAnimatedSticker l buffer))
             (isAnimatedSticker l buffer)"
  unfolding validateSticker_error_set
  by (auto simp: file_size_error_distinct split: sum.splits)

lemma dimensions_error_in_errors:
  "dimensions_error w h \<in> set (errors (validateSticker l buffer m)) \<longleftrightarrow>
     (\<exists>sm. sharp_metadata l buffer = Inr sm
        \<and> \<not> (or_zero (sm_width sm) = STICKER_SIZE \<and> or_zero (sm_height sm) = STICKER_SIZE)
        \<and> dimensions_error w h
            = dimensions_error (or_zero (sm_width sm)) (or_zero (sm_height sm)))"
  unfolding validateSticker_error_set
  by (auto simp: dimensions_error_distinct split: sum.splits)

lemma dimensions_failure_in_errors:
  "dimensions_failure e \<in> set (errors (validateSticker l buffer m)) \<longleftrightarrow>
     (\<exists>e'. sharp_metadata l buffer = Inl e' \<and> dimensions_failure e = dimensions_failure e')"
  unfolding validateSticker_error_set
  by (auto simp: dimensions_failure_distinct split: sum.splits)

lemma pack_error_in_errors:
  "pack_error \<in> set (errors (validateSticker l buffer m)) \<longleftrightarrow>
     PACK_NAME_MAX_LENGTH < length (or_empty (so_pack m))"
  unfolding validateSticker_error_set
  by (auto simp: pack_error_distinct split: sum.splits)

lemma id_charset_error_in_errors:
  "id_charset_error \<in> set (errors (validateSticker l buffer m)) \<longleftrightarrow>
     or_empty (so_id m) \<noteq> [] \<and> \<not> id_regex_test (or_empty (so_id m))"
  unfolding validateSticker_error_set
  by (auto simp: id_charset_error_distinct id_errors_distinct split: sum.splits)

lemma too_many_categories_error_in_errors:
  "too_many_categories_error n \<in> set (errors (validateSticker l buffer m)) \<longleftrightarrow>
     MAX_CATEGORIES_PER_STICKER < length (or_empty (so_categories m))
     \<and> too_many_categories_error n
         = too_many_categories_error (length (or_empty (so_categories m)))"
  unfolding validateSticker_error_set
  by (auto simp: too_many_categories_error_distinct split: sum.splits)

lemma not_allowed_fails_regex:
  assumes "c \<in> set i" "\<not> id_char_allowed c"
  shows "i \<noteq> [] \<and> \<not> id_regex_test i"
  using assms by (auto simp: id_regex_test_def list_all_iff)

text \<open>The texts of the messages at the boundaries.\<close>

lemma static_size_error_text:
  "file_size_error (100 * 1024 + 1) (100 * 1024) False =
     js ''File size 100.0KB exceeds WhatsApp limit of 100.0KB for static stickers''"
  by (simp add: file_size_error_def toFixed1_KB_def show_nat.simps digit_chars_def js_def)

lemma dimensions_error_text:
  "dimensions_error 511 512 = js ''Sticker dimensions 511x512 must be exactly 512x512 pixels''"
  "dimensions_error 512 511 = js ''Sticker dimensions 512x511 must be exactly 512x512 pixels''"
  by (simp_all add: dimensions_error_def STICKER_SIZE_def show_nat.simps digit_chars_def js_def)

lemma pack_error_text: "pack_error = js ''Pack name exceeds 128 character limit''"
  by (simp add: pack_error_def PACK_NAME_MAX_LENGTH_def show_nat.simps digit_chars_def js_def)

subsection \<open>Claims about the report\<close>

text \<open>
  C4, as amended. \<open>validateSticker\<close> returns a report for every buffer and every metadata
  object, whatever the libraries do: its \<open>try\<close> block never hands an error to the \<open>catch\<close>.
  When the decoder fails on the buffer with cause \<open>e\<close>, the report holds the entry
  "Failed to read sticker dimensions: " followed by the message of \<open>e\<close> exactly once, it
  is not valid, and its dimensions are width 0, height 0 and \<open>isValid\<close> false. The
  other checks still run: the file-size sub-report holds the length of the buffer and
  the limit of its classification (and the size and metadata checks may add entries of
  their own).
\<close>

theorem decoding_fault_is_reported:
  "validateSticker_try l buffer m initial_result = Inr (validateSticker l buffer m)
   \<and> (sharp_metadata l buffer = Inl e \<longrightarrow>
        count_list (errors (validateSticker l buffer m)) (dimensions_failure e) = 1
        \<and> \<not> isValid (validateSticker l buffer m)
        \<and> dimensions (validateSticker l buffer m)
            = \<lparr>dim_width = 0, dim_height = 0, dim_isValid = False\<rparr>
        \<and> fs_size (fileSize (validateSticker l buffer m)) = length buffer
        \<and> fs_limit (fileSize (validateSticker l buffer m))
            = (if isAnimatedSticker l buffer then 500 * 1024 else 100 * 1024))"
proof (intro conjI impI)
  show "validateSticker_try l buffer m initial_result = Inr (validateSticker l buffer m)"
    by (simp add: validateSticker_def validateSticker_try_def Let_def)
next
  assume f: "sharp_metadata l buffer = Inl e"
  have e: "errors (validateSticker l buffer m) =
     (if length buffer \<le> size_limit (isAnimatedSticker l buffer) then []
      else [file_size_error (length buffer) (size_limit (isAnimatedSticker l buffer))
              (isAnimatedSticker l buffer)])
     @ [dimensions_failure e]
     @ (if PACK_NAME_MAX_LENGTH < length (or_empty (so_pack m)) then [pack_error] else [])
     @ (if AUTHOR_MAX_LENGTH < length (or_empty (so_author m)) then [author_error] else [])
     @ (if ID_MAX_LENGTH < length (or_empty (so_id m)) then [id_length_error] else [])
     @ (if or_empty (so_id m) \<noteq> [] \<and> \<not> id_regex_test (or_empty (so_id m))
        then [id_charset_error] else [])
     @ (if MAX_CATEGORIES_PER_STICKER < length (or_empty (so_categories m))
        then [too_many_categories_error (length (or_empty (so_categories m)))] else [])"
    unfolding validateSticker_errors f by simp
  show "count_list (errors (validateSticker l buffer m)) (dimensions_failure e) = 1"
    unfolding e by (simp add: dimensions_failure_distinct)
  show "\<not> isValid (validateSticker l buffer m)"
    unfolding validateSticker_isValid e by simp
  show "dimensions (validateSticker l buffer m)
          = \<lparr>dim_width = 0, dim_height = 0, dim_isValid = False\<rparr>"
    unfolding validateSticker_dimensions f by simp
  show "fs_size (fileSize (validateSticker l buffer m)) = length buffer"
    by (simp add: validateSticker_fileSize)
  show "fs_limit (fileSize (validateSticker l buffer m))
            = (if isAnimatedSticker l buffer then 500 * 1024 else 100 * 1024)"
    by (simp add: validateSticker_fileSize size_limit_def ANIMATED_MAX_SIZE_def
        STATIC_MAX_SIZE_def)
qed

text \<open>
  Witness for C4 as amended: a buffer of 2000 bytes that is not recognised and that the
  decoder rejects.
\<close>

theorem decoding_fault_is_reported_witness:
  "sharp_metadata libs_corrupt (bytes 2000)
      = Inl (Error (js ''Input buffer contains unsupported image format''))
   \<and> count_list (errors (validateSticker libs_corrupt (bytes 2000) no_options))
        (js ''Failed to read sticker dimensions: Input buffer contains unsupported image format'')
      = 1
   \<and> \<not> isValid (validateSticker libs_corrupt (bytes 2000) no_options)
   \<and> dim_isValid (dimensions (validateSticker libs_corrupt (bytes 2000) no_options)) = False
   \<and> fs_size (fileSize (validateSticker libs_corrupt (bytes 2000) no_options)) = 2000
   \<and> fs_limit (fileSize (validateSticker libs_corrupt (bytes 2000) no_options)) = 100 * 1024"
  using decoding_fault_is_reported[where l=libs_corrupt and buffer="bytes 2000"
      and m=no_options and e="Error (js ''Input buffer contains unsupported image format'')"]
  by (simp add: libs_corrupt_def bytes_def isAnimatedSticker_def dimensions_failure_def
      js_def)

text \<open>
  Counterexample to C4 as stated: an unrecognised buffer of 100 KiB + 1 byte that the
  decoder rejects. The report holds two error entries, not one, and its sub-fields are
  not at their defaults: the dimensions are marked invalid, and the file-size sub-report
  holds the measured size and its limit and is marked invalid.
\<close>

theorem unreadable_buffer_counterexample:
  "sharp_metadata libs_corrupt (bytes (100 * 1024 + 1))
      = Inl (Error (js ''Input buffer contains unsupported image format''))
   \<and> errors (validateSticker libs_corrupt (bytes (100 * 1024 + 1)) no_options)
      = [js ''File size 100.0KB exceeds WhatsApp limit of 100.0KB for static stickers'',
         js ''Failed to read sticker dimensions: Input buffer contains unsupported image format'']
   \<and> dimensions (validateSticker libs_corrupt (bytes (100 * 1024 + 1)) no_options)
      = \<lparr>dim_width = 0, dim_height = 0, dim_isValid = False\<rparr>
   \<and> dimensions initial_result = \<lparr>dim_width = 0, dim_height = 0, dim_isValid = True\<rparr>
   \<and> fileSize (validateSticker libs_corrupt (bytes (100 * 1024 + 1)) no_options)
      = \<lparr>fs_size = 100 * 1024 + 1, fs_isValid = False, fs_limit = 100 * 1024, fs_type = Static\<rparr>
   \<and> fileSize initial_result
      = \<lparr>fs_size = 0, fs_isValid = True, fs_limit = 0, fs_type = Static\<rparr>"
proof -
  have s: "\<not> isAnimatedSticker libs_corrupt (bytes (100 * 1024 + 1))"
    by (simp add: isAnimatedSticker_def libs_corrupt_def)
  show ?thesis
    unfolding validateSticker_errors validateSticker_dimensions validateSticker_fileSize
    using s static_size_error_text
    by (simp add: libs_corrupt_def bytes_def no_options_def or_empty_def size_limit_def
        STATIC_MAX_SIZE_def PACK_NAME_MAX_LENGTH_def AUTHOR_MAX_LENGTH_def ID_MAX_LENGTH_def
        MAX_CATEGORIES_PER_STICKER_def dimensions_failure_def initial_result_def js_def)
qed

text \<open>
  C5. Report validity invariant: for every report \<open>validateSticker\<close> produces, on any
  buffer, any metadata and any behaviour of the libraries (their failures included),
  \<open>isValid\<close> is true exactly when \<open>errors\<close> is empty; the warnings play no part. The same
  holds of what the \<open>catch\<close> block would return from any result object and any error.
\<close>

theorem report_valid_iff_no_errors:
  "(isValid (validateSticker l buffer m) \<longleftrightarrow> errors (validateSticker l buffer m) = [])
   \<and> (isValid (validateSticker_catch error result)
        \<longleftrightarrow> errors (validateSticker_catch error result) = [])"
  by (simp add: validateSticker_isValid validateSticker_catch_def)

text \<open>
  Witness for C5: a 512x512 static WebP of 2000 bytes without metadata is valid with no
  error and two warnings; the same bytes, unreadable, give an invalid report with an
  error.
\<close>

theorem report_valid_iff_no_errors_witness:
  "isValid (validateSticker (libs_image ''image/webp'' 512 512 None) (bytes 2000) no_options)
   \<and> errors (validateSticker (libs_image ''image/webp'' 512 512 None) (bytes 2000) no_options)
       = []
   \<and> warnings (validateSticker (libs_image ''image/webp'' 512 512 None) (bytes 2000)
                 no_options)
       = [no_categories_warning, stroke_warning]
   \<and> \<not> isValid (validateSticker libs_corrupt (bytes 2000) no_options)
   \<and> errors (validateSticker libs_corrupt (bytes 2000) no_options) \<noteq> []"
proof -
  have s: "\<not> isAnimatedSticker (libs_image ''image/webp'' 512 512 None) (bytes 2000)"
    by (simp add: isAnimatedSticker_def libs_image_def)
  have e1: "errors (validateSticker (libs_image ''image/webp'' 512 512 None) (bytes 2000)
                      no_options) = []"
    unfolding validateSticker_errors using s
    by (simp add: libs_image_def bytes_def no_options_def or_empty_def or_zero_def
        size_limit_def STATIC_MAX_SIZE_def STICKER_SIZE_def PACK_NAME_MAX_LENGTH_def
        AUTHOR_MAX_LENGTH_def ID_MAX_LENGTH_def MAX_CATEGORIES_PER_STICKER_def)
  have e2: "errors (validateSticker libs_corrupt (bytes 2000) no_options) \<noteq> []"
    unfolding validateSticker_errors by (simp add: libs_corrupt_def)
  have w: "warnings (validateSticker (libs_image ''image/webp'' 512 512 None) (bytes 2000)
                      no_options) = [no_categories_warning, stroke_warning]"
    unfolding validateSticker_warnings_static[OF s]
    by (simp add: bytes_def no_options_def or_empty_def RECOMMENDED_FILE_SIZE_def)
  show ?thesis
    using report_valid_iff_no_errors[where l="libs_image ''image/webp'' 512 512 None"
        and buffer="bytes 2000" and m=no_options]
      report_valid_iff_no_errors[where l=libs_corrupt and buffer="bytes 2000"
        and m=no_options]
      e1 e2 w
    by simp
qed

text \<open>
  C6, as amended. The classification looks at the detected media type first: a buffer
  detected as WebP is animated exactly when its decoded page count is above one; a
  buffer detected as GIF is animated whatever its page count; every other buffer is
  static. This classification alone selects the file-size limit: 500 KiB for animated,
  100 KiB for static.
\<close>

theorem classification_by_type_and_pages:
  "(isAnimatedSticker l buffer \<longleftrightarrow>
      (\<exists>ft. fromBuffer l buffer = Inr (Some ft) \<and>
         (if ft_mime ft = js ''image/webp''
          then (\<exists>sm p. sharp_metadata l buffer = Inr sm \<and> sm_pages sm = Some p \<and> 1 < p)
          else ft_mime ft = js ''image/gif'')))
   \<and> fileSize (validateSticker l buffer m) =
       (if isAnimatedSticker l buffer
        then \<lparr>fs_size = length buffer, fs_isValid = (length buffer \<le> 500 * 1024),
              fs_limit = 500 * 1024, fs_type = Animated\<rparr>
        else \<lparr>fs_size = length buffer, fs_isValid = (length buffer \<le> 100 * 1024),
              fs_limit = 100 * 1024, fs_type = Static\<rparr>)"
  using isAnimatedSticker_iff[of l buffer]
  by (simp add: validateSticker_fileSize size_limit_def ANIMATED_MAX_SIZE_def
      STATIC_MAX_SIZE_def)

text \<open>
  Witness for C6 as amended: a WebP of 30 pages and 200 KiB is animated and within the
  500 KiB limit.
\<close>

theorem classification_by_type_and_pages_witness:
  "isAnimatedSticker (libs_image ''image/webp'' 512 512 (Some 30)) (bytes (200 * 1024))
   \<and> fileSize (validateSticker (libs_image ''image/webp'' 512 512 (Some 30))
                 (bytes (200 * 1024)) no_options)
       = \<lparr>fs_size = 200 * 1024, fs_isValid = True, fs_limit = 500 * 1024, fs_type = Animated\<rparr>"
  using classification_by_type_and_pages[where l="libs_image ''image/webp'' 512 512 (Some 30)"
      and buffer="bytes (200 * 1024)" and m=no_options]
  by (simp add: libs_image_def bytes_def)

text \<open>
  Counterexample to C6 as stated: a GIF that decodes to a single frame is classified
  animated and gets the 500 KiB limit, so its 200 KiB pass the size check; a TIFF that
  decodes to three pages is classified static.
\<close>

theorem classification_counterexample:
  "sharp_metadata (libs_image ''image/gif'' 512 512 (Some 1)) (bytes (200 * 1024))
      = Inr \<lparr>sm_width = Some 512, sm_height = Some 512, sm_pages = Some 1\<rparr>
   \<and> isAnimatedSticker (libs_image ''image/gif'' 512 512 (Some 1)) (bytes (200 * 1024))
   \<and> fileSize (validateSticker (libs_image ''image/gif'' 512 512 (Some 1))
                 (bytes (200 * 1024)) no_options)
       = \<lparr>fs_size = 200 * 1024, fs_isValid = True, fs_limit = 500 * 1024, fs_type = Animated\<rparr>
   \<and> sharp_metadata (libs_image ''image/tiff'' 512 512 (Some 3)) (bytes (200 * 1024))
      = Inr \<lparr>sm_width = Some 512, sm_height = Some 512, sm_pages = Some 3\<rparr>
   \<and> \<not> isAnimatedSticker (libs_image ''image/tiff'' 512 512 (Some 3)) (bytes (200 * 1024))"
proof -
  have a: "isAnimatedSticker (libs_image ''image/gif'' 512 512 (Some 1)) (bytes (200 * 1024))"
    by (simp add: isAnimatedSticker_def libs_image_def js_def)
  have b: "\<not> isAnimatedSticker (libs_image ''image/tiff'' 512 512 (Some 3))
               (bytes (200 * 1024))"
    by (simp add: isAnimatedSticker_def libs_image_def js_def)
  show ?thesis
    unfolding validateSticker_fileSize using a b
    by (simp add: libs_image_def bytes_def size_limit_def ANIMATED_MAX_SIZE_def)
qed

text \<open>
  C10, as amended. A buffer whose type cannot be determined (\<open>fromBuffer\<close> resolves to
  \<open>undefined\<close>), a buffer on which type detection throws, a buffer detected as WebP
  whose decoding throws, and a buffer whose detected type is neither WebP nor GIF is
  classified static, without an error leaving the classification, and the report applies
  the 100 KiB static limit to it, whatever the decoder would say about its pages. A
  buffer detected as GIF is classified animated and gets the 500 KiB limit without being
  decoded, so also when its decoding throws.
\<close>

theorem unrecognised_is_static:
  "(fromBuffer l buffer = Inr None \<or> (\<exists>e. fromBuffer l buffer = Inl e)
     \<or> (\<exists>ft e. fromBuffer l buffer = Inr (Some ft) \<and> ft_mime ft = js ''image/webp''
                \<and> sharp_metadata l buffer = Inl e)
     \<or> (\<exists>ft. fromBuffer l buffer = Inr (Some ft) \<and> ft_mime ft \<noteq> js ''image/webp''
             \<and> ft_mime ft \<noteq> js ''image/gif'')
    \<longrightarrow> \<not> isAnimatedSticker l buffer
     \<and> fileSize (validateSticker l buffer m) =
         \<lparr>fs_size = length buffer, fs_isValid = (length buffer \<le> 100 * 1024),
          fs_limit = 100 * 1024, fs_type = Static\<rparr>)
   \<and> (fromBuffer l buffer = Inr (Some ft) \<and> ft_mime ft = js ''image/gif''
    \<longrightarrow> isAnimatedSticker l buffer
     \<and> fileSize (validateSticker l buffer m) =
         \<lparr>fs_size = length buffer, fs_isValid = (length buffer \<le> 500 * 1024),
          fs_limit = 500 * 1024, fs_type = Animated\<rparr>)"
proof (intro conjI impI)
  assume "fromBuffer l buffer = Inr None \<or> (\<exists>e. fromBuffer l buffer = Inl e)
     \<or> (\<exists>ft e. fromBuffer l buffer = Inr (Some ft) \<and> ft_mime ft = js ''image/webp''
                \<and> sharp_metadata l buffer = Inl e)
     \<or> (\<exists>ft. fromBuffer l buffer = Inr (Some ft) \<and> ft_mime ft \<noteq> js ''image/webp''
             \<and> ft_mime ft \<noteq> js ''image/gif'')"
  then show s: "\<not> isAnimatedSticker l buffer"
    by (auto simp: isAnimatedSticker_def)
  then show "fileSize (validateSticker l buffer m) =
         \<lparr>fs_size = length buffer, fs_isValid = (length buffer \<le> 100 * 1024),
          fs_limit = 100 * 1024, fs_type = Static\<rparr>"
    by (simp add: validateSticker_fileSize size_limit_def STATIC_MAX_SIZE_def)
next
  assume "fromBuffer l buffer = Inr (Some ft) \<and> ft_mime ft = js ''image/gif''"
  then show a: "isAnimatedSticker l buffer"
    by (simp add: isAnimatedSticker_def js_def)
  then show "fileSize (validateSticker l buffer m) =
         \<lparr>fs_size = length buffer, fs_isValid = (length buffer \<le> 500 * 1024),
          fs_limit = 500 * 1024, fs_type = Animated\<rparr>"
    by (simp add: validateSticker_fileSize size_limit_def ANIMATED_MAX_SIZE_def)
qed

text \<open>
  Witness for C10 as amended, one input for each case, each of 200 KiB: an unrecognised
  buffer, a buffer on which type detection throws although the decoder reads 30 pages, a
  WebP header the decoder cannot read, and an MP4 video the decoder reads 30 pages of are
  static and over the 100 KiB limit; a GIF header the decoder cannot read is animated
  and within the 500 KiB limit.
\<close>

theorem unrecognised_is_static_witness:
  "fileSize (validateSticker libs_corrupt (bytes (200 * 1024)) no_options)
      = \<lparr>fs_size = 200 * 1024, fs_isValid = False, fs_limit = 100 * 1024, fs_type = Static\<rparr>
   \<and> fileSize (validateSticker libs_sniff_throws (bytes (200 * 1024)) no_options)
      = \<lparr>fs_size = 200 * 1024, fs_isValid = False, fs_limit = 100 * 1024, fs_type = Static\<rparr>
   \<and> fileSize (validateSticker libs_broken_webp (bytes (200 * 1024)) no_options)
      = \<lparr>fs_size = 200 * 1024, fs_isValid = False, fs_limit = 100 * 1024, fs_type = Static\<rparr>
   \<and> fileSize (validateSticker (libs_image ''video/mp4'' 512 512 (Some 30))
                 (bytes (200 * 1024)) no_options)
      = \<lparr>fs_size = 200 * 1024, fs_isValid = False, fs_limit = 100 * 1024, fs_type = Static\<rparr>
   \<and> \<not> isAnimatedSticker (libs_image ''video/mp4'' 512 512 (Some 30)) (bytes (200 * 1024))
   \<and> fileSize (validateSticker libs_broken_gif (bytes (200 * 1024)) no_options)
      = \<lparr>fs_size = 200 * 1024, fs_isValid = True, fs_limit = 500 * 1024, fs_type = Animated\<rparr>"
  using unrecognised_is_static[where l=libs_corrupt and buffer="bytes (200 * 1024)"
      and m=no_options]
    unrecognised_is_static[where l=libs_sniff_throws and buffer="bytes (200 * 1024)"
      and m=no_options]
    unrecognised_is_static[where l=libs_broken_webp and buffer="bytes (200 * 1024)"
      and m=no_options]
    unrecognised_is_static[where l="libs_image ''video/mp4'' 512 512 (Some 30)"
      and buffer="bytes (200 * 1024)" and m=no_options]
    unrecognised_is_static[where l=libs_broken_gif and buffer="bytes (200 * 1024)"
      and m=no_options and ft="\<lparr>ft_ext = js ''gif'', ft_mime = js ''image/gif''\<rparr>"]
  by (simp add: libs_corrupt_def libs_sniff_throws_def libs_broken_webp_def libs_image_def
      libs_broken_gif_def bytes_def js_def)

text \<open>
  Counterexample to C10 as stated: a buffer of 200 KiB with a GIF header that the decoder
  rejects. Its decoding throws (the report holds the dimension-reading failure), and yet
  it is classified animated and checked against the 500 KiB limit, which it passes.
\<close>

theorem undecodable_gif_counterexample:
  "fromBuffer libs_broken_gif (bytes (200 * 1024))
      = Inr (Some \<lparr>ft_ext = js ''gif'', ft_mime = js ''image/gif''\<rparr>)
   \<and> sharp_metadata libs_broken_gif (bytes (200 * 1024))
      = Inl (Error (js ''Input buffer has corrupt header''))
   \<and> isAnimatedSticker libs_broken_gif (bytes (200 * 1024))
   \<and> fileSize (validateSticker libs_broken_gif (bytes (200 * 1024)) no_options)
      = \<lparr>fs_size = 200 * 1024, fs_isValid = True, fs_limit = 500 * 1024, fs_type = Animated\<rparr>
   \<and> js ''Failed to read sticker dimensions: Input buffer has corrupt header''
      \<in> set (errors (validateSticker libs_broken_gif (bytes (200 * 1024)) no_options))"
proof -
  have a: "isAnimatedSticker libs_broken_gif (bytes (200 * 1024))"
    by (simp add: isAnimatedSticker_def libs_broken_gif_def js_def)
  have f: "js ''Failed to read sticker dimensions: Input buffer has corrupt header''
             = dimensions_failure (Error (js ''Input buffer has corrupt header''))"
    by (simp add: dimensions_failure_def js_def)
  show ?thesis
    unfolding validateSticker_fileSize f dimensions_failure_in_errors using a
    by (simp add: libs_broken_gif_def bytes_def size_limit_def ANIMATED_MAX_SIZE_def)
qed

text \<open>
  C7. Boundary exactness of the size and dimension checks. A buffer classified static of
  exactly 100*1024 bytes gets a valid file-size sub-report and no size error; one of
  100*1024+1 bytes gets an invalid sub-report, the size error, and an invalid report.
  A buffer that decodes to exactly 512x512 gets a valid dimensions sub-report and no
  dimension error; one that decodes to 511x512 or to 512x511 gets an invalid sub-report,
  the dimension error, and an invalid report.
\<close>

theorem boundary_exactness:
  "(\<not> isAnimatedSticker l buffer \<and> length buffer = 100 * 1024 \<longrightarrow>
      fileSize (validateSticker l buffer m)
        = \<lparr>fs_size = 100 * 1024, fs_isValid = True, fs_limit = 100 * 1024, fs_type = Static\<rparr>
      \<and> (\<forall>s lim a. file_size_error s lim a \<notin> set (errors (validateSticker l buffer m))))
   \<and> (\<not> isAnimatedSticker l buffer \<and> length buffer = 100 * 1024 + 1 \<longrightarrow>
      \<not> fs_isValid (fileSize (validateSticker l buffer m))
      \<and> js ''File size 100.0KB exceeds WhatsApp limit of 100.0KB for static stickers''
          \<in> set (errors (validateSticker l buffer m))
      \<and> \<not> isValid (validateSticker l buffer m))
   \<and> (sharp_metadata l buffer = Inr sm \<and> sm_width sm = Some 512 \<and> sm_height sm = Some 512 \<longrightarrow>
      dimensions (validateSticker l buffer m)
        = \<lparr>dim_width = 512, dim_height = 512, dim_isValid = True\<rparr>
      \<and> (\<forall>w h. dimensions_error w h \<notin> set (errors (validateSticker l buffer m)))
      \<and> (\<forall>e. dimensions_failure e \<notin> set (errors (validateSticker l buffer m))))
   \<and> (sharp_metadata l buffer = Inr sm \<and> sm_width sm = Some 511 \<and> sm_height sm = Some 512 \<longrightarrow>
      \<not> dim_isValid (dimensions (validateSticker l buffer m))
      \<and> js ''Sticker dimensions 511x512 must be exactly 512x512 pixels''
          \<in> set (errors (validateSticker l buffer m))
      \<and> \<not> isValid (validateSticker l buffer m))
   \<and> (sharp_metadata l buffer = Inr sm \<and> sm_width sm = Some 512 \<and> sm_height sm = Some 511 \<longrightarrow>
      \<not> dim_isValid (dimensions (validateSticker l buffer m))
      \<and> js ''Sticker dimensions 512x511 must be exactly 512x512 pixels''
          \<in> set (errors (validateSticker l buffer m))
      \<and> \<not> isValid (validateSticker l buffer m))"
proof (intro conjI impI; (elim conjE)?)
  assume "\<not> isAnimatedSticker l buffer" "length buffer = 100 * 1024"
  then show "fileSize (validateSticker l buffer m)
        = \<lparr>fs_size = 100 * 1024, fs_isValid = True, fs_limit = 100 * 1024, fs_type = Static\<rparr>"
    and "\<forall>s lim a. file_size_error s lim a \<notin> set (errors (validateSticker l buffer m))"
    by (simp_all add: validateSticker_fileSize file_size_error_in_errors size_limit_def
        STATIC_MAX_SIZE_def)
next
  assume a: "\<not> isAnimatedSticker l buffer" "length buffer = 100 * 1024 + 1"
  then show "\<not> fs_isValid (fileSize (validateSticker l buffer m))"
    by (simp add: validateSticker_fileSize size_limit_def STATIC_MAX_SIZE_def)
  from a
  show in_err: "js ''File size 100.0KB exceeds WhatsApp limit of 100.0KB for static stickers''
          \<in> set (errors (validateSticker l buffer m))"
    unfolding static_size_error_text[symmetric] file_size_error_in_errors
    by (simp add: size_limit_def STATIC_MAX_SIZE_def)
  then show "\<not> isValid (validateSticker l buffer m)"
    unfolding validateSticker_isValid by auto
next
  assume "sharp_metadata l buffer = Inr sm" "sm_width sm = Some 512" "sm_height sm = Some 512"
  then show "dimensions (validateSticker l buffer m)
        = \<lparr>dim_width = 512, dim_height = 512, dim_isValid = True\<rparr>"
    and "\<forall>w h. dimensions_error w h \<notin> set (errors (validateSticker l buffer m))"
    and "\<forall>e. dimensions_failure e \<notin> set (errors (validateSticker l buffer m))"
    by (simp_all add: validateSticker_dimensions dimensions_error_in_errors
        dimensions_failure_in_errors or_zero_def STICKER_SIZE_def)
next
  assume a: "sharp_metadata l buffer = Inr sm" "sm_width sm = Some 511" "sm_height sm = Some 512"
  then show "\<not> dim_isValid (dimensions (validateSticker l buffer m))"
    by (simp add: validateSticker_dimensions or_zero_def STICKER_SIZE_def)
  from a show "js ''Sticker dimensions 511x512 must be exactly 512x512 pixels''
          \<in> set (errors (validateSticker l buffer m))"
    unfolding dimensions_error_text[symmetric] dimensions_error_in_errors
    by (simp add: or_zero_def STICKER_SIZE_def)
  then show "\<not> isValid (validateSticker l buffer m)"
    unfolding validateSticker_isValid by auto
next
  assume a: "sharp_metadata l buffer = Inr sm" "sm_width sm = Some 512" "sm_height sm = Some 511"
  then show "\<not> dim_isValid (dimensions (validateSticker l buffer m))"
    by (simp add: validateSticker_dimensions or_zero_def STICKER_SIZE_def)
  from a show "js ''Sticker dimensions 512x511 must be exactly 512x512 pixels''
          \<in> set (errors (validateSticker l buffer m))"
    unfolding dimensions_error_text[symmetric] dimensions_error_in_errors
    by (simp add: or_zero_def STICKER_SIZE_def)
  then show "\<not> isValid (validateSticker l buffer m)"
    unfolding validateSticker_isValid by auto
qed

text \<open>
  Witness for C7: static WebP buffers of 100 KiB and of 100 KiB + 1 byte at 512x512, and
  buffers of 2000 bytes at 511x512 and at 512x511.
\<close>

theorem boundary_exactness_witness:
  "fs_isValid (fileSize (validateSticker (libs_image ''image/webp'' 512 512 None)
                           (bytes (100 * 1024)) no_options))
   \<and> dim_isValid (dimensions (validateSticker (libs_image ''image/webp'' 512 512 None)
                                 (bytes (100 * 1024)) no_options))
   \<and> \<not> fs_isValid (fileSize (validateSticker (libs_image ''image/webp'' 512 512 None)
                                (bytes (100 * 1024 + 1)) no_options))
   \<and> js ''File size 100.0KB exceeds WhatsApp limit of 100.0KB for static stickers''
        \<in> set (errors (validateSticker (libs_image ''image/webp'' 512 512 None)
                          (bytes (100 * 1024 + 1)) no_options))
   \<and> js ''Sticker dimensions 511x512 must be exactly 512x512 pixels''
        \<in> set (errors (validateSticker (libs_image ''image/webp'' 511 512 None)
                          (bytes 2000) no_options))
   \<and> js ''Sticker dimensions 512x511 must be exactly 512x512 pixels''
        \<in> set (errors (validateSticker (libs_image ''image/webp'' 512 511 None)
                          (bytes 2000) no_options))"
proof -
  have s: "\<And>w h n. \<not> isAnimatedSticker (libs_image ''image/webp'' w h None) (bytes n)"
    by (simp add: isAnimatedSticker_def libs_image_def)
  show ?thesis
    using s
      boundary_exactness[where l="libs_image ''image/webp'' 512 512 None"
        and buffer="bytes (100 * 1024)" and m=no_options
        and sm="\<lparr>sm_width = Some 512, sm_height = Some 512, sm_pages = None\<rparr>"]
      boundary_exactness[where l="libs_image ''image/webp'' 512 512 None"
        and buffer="bytes (100 * 1024 + 1)" and m=no_options
        and sm="\<lparr>sm_width = Some 512, sm_height = Some 512, sm_pages = None\<rparr>"]
      boundary_exactness[where l="libs_image ''image/webp'' 511 512 None"
        and buffer="bytes 2000" and m=no_options
        and sm="\<lparr>sm_width = Some 511, sm_height = Some 512, sm_pages = None\<rparr>"]
      boundary_exactness[where l="libs_image ''image/webp'' 512 511 None"
        and buffer="bytes 2000" and m=no_options
        and sm="\<lparr>sm_width = Some 512, sm_height = Some 511, sm_pages = None\<rparr>"]
    by (simp add: libs_image_def bytes_def)
qed

text \<open>
  C8. Metadata boundary and charset checks, on the report of \<open>validateSticker\<close>. A pack
  name of exactly 128 code units gives a valid pack sub-report and no pack error; 129
  give the pack-limit error. A non-empty ID made of the allowed characters only (such as
  "a_b-c.d e") gives no charset error; an ID that holds any other character (such as
  "@") gives the charset error and an invalid ID sub-report, whatever its length. More
  than 3 categories give the too-many-categories error; no category gives the warning,
  a valid categories sub-report and no categories error.
\<close>

theorem metadata_boundaries:
  "(so_pack m = Some p \<and> length p = 128 \<longrightarrow>
      md_pack (metadata (validateSticker l buffer m))
        = \<lparr>txt_value = p, txt_isValid = True, txt_limit = 128\<rparr>
      \<and> pack_error \<notin> set (errors (validateSticker l buffer m)))
   \<and> (so_pack m = Some p \<and> length p = 129 \<longrightarrow>
      \<not> txt_isValid (md_pack (metadata (validateSticker l buffer m)))
      \<and> pack_error \<in> set (errors (validateSticker l buffer m)))
   \<and> (so_id m = Some i \<and> i \<noteq> [] \<and> list_all id_char_allowed i \<longrightarrow>
      id_charset_error \<notin> set (errors (validateSticker l buffer m)))
   \<and> list_all id_char_allowed (js ''a_b-c.d e'')
   \<and> (so_id m = Some i \<and> c \<in> set i \<and> \<not> id_char_allowed c \<longrightarrow>
      id_charset_error \<in> set (errors (validateSticker l buffer m))
      \<and> \<not> txt_isValid (md_id (metadata (validateSticker l buffer m))))
   \<and> \<not> id_char_allowed (of_char CHR ''@'')
   \<and> (so_categories m = Some cs \<and> 3 < length cs \<longrightarrow>
      too_many_categories_error (length cs) \<in> set (errors (validateSticker l buffer m))
      \<and> \<not> cat_isValid (md_categories (metadata (validateSticker l buffer m))))
   \<and> (or_empty (so_categories m) = [] \<longrightarrow>
      no_categories_warning \<in> set (warnings (validateSticker l buffer m))
      \<and> (\<forall>n. too_many_categories_error n \<notin> set (errors (validateSticker l buffer m)))
      \<and> cat_isValid (md_categories (metadata (validateSticker l buffer m))))"
proof (intro conjI impI; (elim conjE)?)
  assume "so_pack m = Some p" "length p = 128"
  then show "md_pack (metadata (validateSticker l buffer m))
        = \<lparr>txt_value = p, txt_isValid = True, txt_limit = 128\<rparr>"
    and "pack_error \<notin> set (errors (validateSticker l buffer m))"
    by (simp_all add: validateSticker_metadata pack_error_in_errors or_empty_def
        PACK_NAME_MAX_LENGTH_def)
next
  assume "so_pack m = Some p" "length p = 129"
  then show "\<not> txt_isValid (md_pack (metadata (validateSticker l buffer m)))"
    and "pack_error \<in> set (errors (validateSticker l buffer m))"
    by (simp_all add: validateSticker_metadata pack_error_in_errors or_empty_def
        PACK_NAME_MAX_LENGTH_def)
next
  assume "so_id m = Some i" "i \<noteq> []" "list_all id_char_allowed i"
  then show "id_charset_error \<notin> set (errors (validateSticker l buffer m))"
    by (simp add: id_charset_error_in_errors or_empty_def id_regex_test_def)
next
  show "list_all id_char_allowed (js ''a_b-c.d e'')"
    by (simp add: js_def id_char_allowed_def)
next
  assume "so_id m = Some i" "c \<in> set i" "\<not> id_char_allowed c"
  with not_allowed_fails_regex[of c i]
  show "id_charset_error \<in> set (errors (validateSticker l buffer m))"
    and "\<not> txt_isValid (md_id (metadata (validateSticker l buffer m)))"
    by (simp_all add: id_charset_error_in_errors validateSticker_metadata or_empty_def)
next
  show "\<not> id_char_allowed (of_char CHR ''@'')"
    by (simp add: id_char_allowed_def)
next
  assume "so_categories m = Some cs" "3 < length cs"
  then show "too_many_categories_error (length cs) \<in> set (errors (validateSticker l buffer m))"
    and "\<not> cat_isValid (md_categories (metadata (validateSticker l buffer m)))"
    by (simp_all add: too_many_categories_error_in_errors validateSticker_metadata or_empty_def
        MAX_CATEGORIES_PER_STICKER_def)
next
  assume a: "or_empty (so_categories m) = []"
  then show "no_categories_warning \<in> set (warnings (validateSticker l buffer m))"
    by (rule validateSticker_no_categories_warning)
  from a show "\<forall>n. too_many_categories_error n \<notin> set (errors (validateSticker l buffer m))"
    and "cat_isValid (md_categories (metadata (validateSticker l buffer m)))"
    by (simp_all add: too_many_categories_error_in_errors validateSticker_metadata
        MAX_CATEGORIES_PER_STICKER_def)
qed

text \<open>
  Witness for C8: a pack name of 128 letters with the ID "a_b-c.d e" and no category,
  and a pack name of 129 letters with the ID "a@b" and four categories.
\<close>

theorem metadata_boundaries_witness:
  "js ''Pack name exceeds 128 character limit''
      \<notin> set (errors (validateSticker libs_corrupt (bytes 2000) options_at_limits))
   \<and> id_charset_error \<notin> set (errors (validateSticker libs_corrupt (bytes 2000) options_at_limits))
   \<and> no_categories_warning
      \<in> set (warnings (validateSticker libs_corrupt (bytes 2000) options_at_limits))
   \<and> cat_isValid (md_categories (metadata
        (validateSticker libs_corrupt (bytes 2000) options_at_limits)))
   \<and> js ''Pack name exceeds 128 character limit''
      \<in> set (errors (validateSticker libs_corrupt (bytes 2000) options_over_limits))
   \<and> id_charset_error \<in> set (errors (validateSticker libs_corrupt (bytes 2000) options_over_limits))
   \<and> too_many_categories_error 4
      \<in> set (errors (validateSticker libs_corrupt (bytes 2000) options_over_limits))"
proof -
  have four: "Suc (Suc (Suc (Suc 0))) = 4" by simp
  show ?thesis
    using metadata_boundaries[where l=libs_corrupt and buffer="bytes 2000"
      and m=options_at_limits and p="replicate 128 0x41" and i="js ''a_b-c.d e''"]
      metadata_boundaries[where l=libs_corrupt and buffer="bytes 2000"
      and m=options_over_limits and p="replicate 129 0x41" and i="js ''a@b''"
      and c="of_char CHR ''@''"
      and cs="[[0xD83D, 0xDE00], [0xD83D, 0xDE02], [0xD83C, 0xDF89], [0x2764]]"]
    by (simp add: options_at_limits_def options_over_limits_def or_empty_def js_def
        pack_error_text[unfolded js_def] four)
qed

end
